theory Spec2Isabelle
  imports Main "HOL-Library.Word"
begin

unbundle bit_operations_syntax

section \<open>Data model of the IMU driver (driver/imu.h)\<close>

type_synonym int16_t = "16 word"
type_synonym int32_t = "32 word"
type_synonym uint8_t = "8 word"

text \<open>\<^verbatim>\<open>#define ACTION_HISTORY_BUF_LEN 5\<close>\<close>

definition ACTION_HISTORY_BUF_LEN :: int where
  "ACTION_HISTORY_BUF_LEN = 5"

text \<open>\<^verbatim>\<open>enum ACTIVE_TYPE\<close>, in the order of the declaration (TURN_RIGHT = 0).\<close>

datatype ACTIVE_TYPE =
  TURN_RIGHT | RETURN | TURN_LEFT | UP | DOWN | GO_FORWORD | SHAKE | UNKNOWN

text \<open>\<^verbatim>\<open>enum MPU_DIR_TYPE\<close>: the bits of the orientation byte.\<close>

definition X_DIR_TYPE :: uint8_t where "X_DIR_TYPE = 0x01"
definition Y_DIR_TYPE :: uint8_t where "Y_DIR_TYPE = 0x02"
definition Z_DIR_TYPE :: uint8_t where "Z_DIR_TYPE = 0x04"
definition XY_DIR_TYPE :: uint8_t where "XY_DIR_TYPE = 0x08"

text \<open>
  Modelled from the spec: the type \<^verbatim>\<open>lv_indev_state_t\<close> of the UI library's
  \<^verbatim>\<open>lv_port_indev.h\<close>, which is not among the sources; the spec calls it a two-state
  press/release latch. \<^verbatim>\<open>LV_INDEV_STATE_PR\<close> is "pressed", \<^verbatim>\<open>LV_INDEV_STATE_REL\<close>
  is "released".
\<close>

datatype lv_indev_state_t = LV_INDEV_STATE_REL | LV_INDEV_STATE_PR

text \<open>\<^verbatim>\<open>struct ImuAction\<close>. The six readings are \<^verbatim>\<open>int16_t\<close>.\<close>

record ImuAction =
  active :: ACTIVE_TYPE
  isValid :: bool
  long_time :: bool
  v_ax :: int16_t
  v_ay :: int16_t
  v_az :: int16_t
  v_gx :: int16_t
  v_gy :: int16_t
  v_gz :: int16_t

text \<open>
  The six values that the sensor library's \<^verbatim>\<open>mpu.getMotion6\<close> stores through its six
  pointer arguments: one raw sample. The sensor is outside the driver, so a sample is an
  input of every operation that reads one.
\<close>

record Motion6 =
  raw_ax :: int16_t
  raw_ay :: int16_t
  raw_az :: int16_t
  raw_gx :: int16_t
  raw_gy :: int16_t
  raw_gz :: int16_t

text \<open>
  \<^verbatim>\<open>class IMU\<close>. The member \<^verbatim>\<open>flag\<close> is never read or written and the sensor handle
  is external; both are left out. \<^verbatim>\<open>last_update_time\<close> is a \<^verbatim>\<open>long\<close> of the 32-bit
  target, kept as its bit pattern. The history array has
  \<^verbatim>\<open>ACTION_HISTORY_BUF_LEN\<close> slots and is a list; \<^verbatim>\<open>act_info_history_ind\<close> is an
  \<^verbatim>\<open>int\<close>.
\<close>

record IMU =
  last_update_time :: "32 word"
  order :: uint8_t
  action_info :: ImuAction
  act_info_history :: "ACTIVE_TYPE list"
  act_info_history_ind :: int

text \<open>
  The state the driver works on: the global object \<^verbatim>\<open>IMU mpu\<close> (common.h) and the two
  globals \<^verbatim>\<open>encoder_diff\<close> and \<^verbatim>\<open>encoder_state\<close> that imu.h declares \<^verbatim>\<open>extern\<close>.
  \<^verbatim>\<open>encoder_diff\<close> is an \<^verbatim>\<open>int32_t\<close> kept as its bit pattern: \<^verbatim>\<open>++\<close> and \<^verbatim>\<open>--\<close> are
  taken modulo \<open>2 ^ 32\<close>, \<open>sint\<close> reads the signed value.
\<close>

record Firmware =
  mpu :: IMU
  encoder_diff :: int32_t
  encoder_state :: lv_indev_state_t

text \<open>
  What an operation does to the outside, in order: a read of the sensor, a blocking
  \<^verbatim>\<open>delay(ms)\<close>, a read of the clock \<^verbatim>\<open>millis()\<close>.
\<close>

datatype io_event = GetMotion6 | Delay nat | Millis

section \<open>Operations (driver/imu.cpp)\<close>

text \<open>The remainder \<^verbatim>\<open>a % b\<close> of C++, which truncates towards zero.\<close>

definition c_rem :: "int \<Rightarrow> int \<Rightarrow> int" where
  "c_rem a b = sgn a * (\<bar>a\<bar> mod \<bar>b\<bar>)"

text \<open>
  \<^verbatim>\<open>IMU::IMU()\<close>. The constructor writes some members of the object's storage and leaves
  the others (the six readings, \<^verbatim>\<open>last_update_time\<close>) as they were, so the storage
  before construction is the argument. The loop over \<^verbatim>\<open>pos\<close> is the fold.
\<close>

definition IMU_IMU :: "IMU \<Rightarrow> IMU" where
  "IMU_IMU this =
    (let this = this\<lparr>action_info := (action_info this)\<lparr>isValid := False\<rparr>\<rparr>;
         this = this\<lparr>action_info := (action_info this)\<lparr>active := UNKNOWN\<rparr>\<rparr>;
         this = this\<lparr>action_info := (action_info this)\<lparr>long_time := True\<rparr>\<rparr>;
         this = fold (\<lambda>pos this. this\<lparr>act_info_history := (act_info_history this)[pos := UNKNOWN]\<rparr>)
                  [0 ..< nat ACTION_HISTORY_BUF_LEN] this;
         this = this\<lparr>act_info_history_ind := ACTION_HISTORY_BUF_LEN - 1\<rparr>;
         this = this\<lparr>order := 0\<rparr>
     in this)"

text \<open>
  The storage of an object of static storage duration before its constructor runs: every
  member zero, so every enum member is the enumerator 0, \<^verbatim>\<open>TURN_RIGHT\<close>.
\<close>

definition zero_ImuAction :: ImuAction where
  "zero_ImuAction =
    \<lparr>active = TURN_RIGHT, isValid = False, long_time = False,
     v_ax = 0, v_ay = 0, v_az = 0, v_gx = 0, v_gy = 0, v_gz = 0\<rparr>"

definition zero_IMU :: IMU where
  "zero_IMU =
    \<lparr>last_update_time = 0, order = 0, action_info = zero_ImuAction,
     act_info_history = [TURN_RIGHT, TURN_RIGHT, TURN_RIGHT, TURN_RIGHT, TURN_RIGHT],
     act_info_history_ind = 0\<rparr>"

text \<open>\<^verbatim>\<open>IMU::setOrder\<close>.\<close>

definition setOrder :: "uint8_t \<Rightarrow> IMU \<Rightarrow> IMU" where
  "setOrder ord this = this\<lparr>order := ord\<rparr>"

text \<open>
  \<^verbatim>\<open>IMU::getVirtureMotion6(ImuAction *action_info)\<close>: the sample is stored in the six
  readings of the structure pointed to, then negated and swapped in place. Negation of an
  \<^verbatim>\<open>int16_t\<close> stored back into an \<^verbatim>\<open>int16_t\<close> is negation modulo \<open>2 ^ 16\<close>.
\<close>

definition getVirtureMotion6 :: "uint8_t \<Rightarrow> Motion6 \<Rightarrow> ImuAction \<Rightarrow> ImuAction" where
  "getVirtureMotion6 ord raw a =
    (let a = a\<lparr>v_ax := raw_ax raw, v_ay := raw_ay raw, v_az := raw_az raw,
               v_gx := raw_gx raw, v_gy := raw_gy raw, v_gz := raw_gz raw\<rparr>;
         a = (if ord AND X_DIR_TYPE \<noteq> 0
              then (let a = a\<lparr>v_ax := - v_ax a\<rparr>; a = a\<lparr>v_gx := - v_gx a\<rparr> in a)
              else a);
         a = (if ord AND Y_DIR_TYPE \<noteq> 0
              then (let a = a\<lparr>v_ay := - v_ay a\<rparr>; a = a\<lparr>v_gy := - v_gy a\<rparr> in a)
              else a);
         a = (if ord AND Z_DIR_TYPE \<noteq> 0
              then (let a = a\<lparr>v_az := - v_az a\<rparr>; a = a\<lparr>v_gz := - v_gz a\<rparr> in a)
              else a);
         a = (if ord AND XY_DIR_TYPE \<noteq> 0
              then (let swap_tmp = v_ax a;
                        a = a\<lparr>v_ax := v_ay a\<rparr>;
                        a = a\<lparr>v_ay := swap_tmp\<rparr>;
                        swap_tmp = v_gx a;
                        a = a\<lparr>v_gx := v_gy a\<rparr>;
                        a = a\<lparr>v_gy := swap_tmp\<rparr>
                    in a)
              else a)
     in a)"

text \<open>
  The first block of \<^verbatim>\<open>IMU::update\<close> under the interval test ("Check for rotational
  motion"), entered when the latch is clear.
\<close>

definition update_rotation :: "Firmware \<Rightarrow> Firmware" where
  "update_rotation fw =
    (let a = action_info (mpu fw) in
     if sint (v_ay a) > 4000 then
       fw\<lparr>encoder_diff := encoder_diff fw - 1,
          mpu := (mpu fw)\<lparr>action_info := a\<lparr>isValid := True, active := TURN_LEFT\<rparr>\<rparr>\<rparr>
     else if sint (v_ay a) < - 4000 then
       fw\<lparr>encoder_diff := encoder_diff fw + 1,
          mpu := (mpu fw)\<lparr>action_info := a\<lparr>isValid := True, active := TURN_RIGHT\<rparr>\<rparr>\<rparr>
     else if sint (v_ay a) > 1000 \<or> sint (v_ay a) < - 1000 then
       fw\<lparr>encoder_diff := encoder_diff fw - 1,
          mpu := (mpu fw)\<lparr>action_info := a\<lparr>isValid := True, active := SHAKE\<rparr>\<rparr>\<rparr>
     else
       fw\<lparr>mpu := (mpu fw)\<lparr>action_info := a\<lparr>isValid := False\<rparr>\<rparr>\<rparr>)"

text \<open>
  The second block ("Check for linear motion"), entered when the latch is still clear.
  \<open>raw2\<close> is the sample that the read after \<^verbatim>\<open>delay(500)\<close> returns; the list is what the
  block does to the outside.
\<close>

definition update_linear :: "Motion6 \<Rightarrow> Firmware \<Rightarrow> Firmware \<times> io_event list" where
  "update_linear raw2 fw =
    (let this = mpu fw; a = action_info this in
     if sint (v_ax a) > 5000 then
       (let a = a\<lparr>isValid := True, active := UP\<rparr>;
            a = getVirtureMotion6 (order this) raw2 a
        in if sint (v_ax a) > 5000
           then (fw\<lparr>mpu := this\<lparr>action_info := a\<lparr>isValid := True, active := GO_FORWORD\<rparr>\<rparr>,
                    encoder_state := LV_INDEV_STATE_PR\<rparr>, [Delay 500, GetMotion6])
           else (fw\<lparr>mpu := this\<lparr>action_info := a\<rparr>\<rparr>, [Delay 500, GetMotion6]))
     else if sint (v_ax a) < - 5000 then
       (let a = a\<lparr>isValid := True, active := DOWN\<rparr>;
            a = getVirtureMotion6 (order this) raw2 a
        in if sint (v_ax a) < - 5000
           then (fw\<lparr>mpu := this\<lparr>action_info := a\<lparr>isValid := True, active := RETURN\<rparr>\<rparr>,
                    encoder_state := LV_INDEV_STATE_REL\<rparr>, [Delay 500, GetMotion6])
           else (fw\<lparr>mpu := this\<lparr>action_info := a\<rparr>\<rparr>, [Delay 500, GetMotion6]))
     else if sint (v_ax a) > 1000 \<or> sint (v_ax a) < - 1000 then
       (fw\<lparr>mpu := this\<lparr>action_info := a\<lparr>isValid := True, active := SHAKE\<rparr>\<rparr>\<rparr>, [])
     else
       (fw\<lparr>mpu := this\<lparr>action_info := a\<lparr>isValid := False\<rparr>\<rparr>\<rparr>, []))"

text \<open>
  \<^verbatim>\<open>IMU::update(int interval)\<close>. \<open>now1\<close> is what \<^verbatim>\<open>millis()\<close> returns in the interval
  test and \<open>now2\<close> what it returns in the assignment to \<^verbatim>\<open>last_update_time\<close>; \<open>raw1\<close>
  is the sample of the first read. In \<^verbatim>\<open>millis() - last_update_time > interval\<close> the
  left operand is an \<^verbatim>\<open>unsigned long\<close>, so the \<^verbatim>\<open>long\<close> and the \<^verbatim>\<open>int\<close> are converted
  to it: on the 32-bit target the subtraction wraps and the comparison is unsigned.
\<close>

definition update ::
  "32 word \<Rightarrow> 32 word \<Rightarrow> Motion6 \<Rightarrow> Motion6 \<Rightarrow> 32 word \<Rightarrow> Firmware \<Rightarrow> Firmware \<times> io_event list" where
  "update interval now1 raw1 raw2 now2 fw =
    (let fw = fw\<lparr>mpu := (mpu fw)\<lparr>action_info :=
                 getVirtureMotion6 (order (mpu fw)) raw1 (action_info (mpu fw))\<rparr>\<rparr>
     in if now1 - last_update_time (mpu fw) > interval then
          (let fw = (if \<not> isValid (action_info (mpu fw)) then update_rotation fw else fw);
               (fw, tr) = (if \<not> isValid (action_info (mpu fw)) then update_linear raw2 fw
                           else (fw, []));
               fw = fw\<lparr>mpu := (mpu fw)\<lparr>last_update_time := now2\<rparr>\<rparr>
           in (fw, [GetMotion6, Millis] @ tr @ [Millis]))
        else (fw, [GetMotion6, Millis]))"

text \<open>
  The local \<^verbatim>\<open>ImuAction tmp_info\<close> of \<^verbatim>\<open>IMU::getAction\<close> before anything is stored in
  it. Every member that \<^verbatim>\<open>getAction\<close> reads is written first, so its content is of no
  consequence.
\<close>

definition tmp_info_local :: ImuAction where
  "tmp_info_local = zero_ImuAction"

text \<open>
  The first part of \<^verbatim>\<open>IMU::getAction\<close>: the local \<^verbatim>\<open>tmp_info\<close> after the sample is
  read and the two cascades ("Check for rotational motion", "Check for linear motion")
  have run. The third test of the linear cascade reads \<^verbatim>\<open>action_info.v_ax\<close>, the member
  of the object, where the tests around it read \<^verbatim>\<open>tmp_info\<close>.
\<close>

definition getAction_tmp_info :: "Motion6 \<Rightarrow> IMU \<Rightarrow> ImuAction" where
  "getAction_tmp_info raw this =
    (let tmp_info = getVirtureMotion6 (order this) raw tmp_info_local;
         tmp_info = tmp_info\<lparr>active := UNKNOWN\<rparr>;
         tmp_info =
           (if UNKNOWN = active tmp_info then
              (if sint (v_ay tmp_info) > 4000 then tmp_info\<lparr>active := TURN_LEFT\<rparr>
               else if sint (v_ay tmp_info) < - 4000 then tmp_info\<lparr>active := TURN_RIGHT\<rparr>
               else if sint (v_ay tmp_info) > 1000 \<or> sint (v_ay tmp_info) < - 1000
                 then tmp_info\<lparr>active := SHAKE\<rparr>
               else tmp_info)
            else tmp_info);
         tmp_info =
           (if UNKNOWN = active tmp_info then
              (if sint (v_ax tmp_info) > 5000 then tmp_info\<lparr>active := UP\<rparr>
               else if sint (v_ax tmp_info) < - 5000 then tmp_info\<lparr>active := DOWN\<rparr>
               else if sint (v_ax (action_info this)) > 1000
                       \<or> sint (v_ax (action_info this)) < - 1000
                 then tmp_info\<lparr>active := SHAKE\<rparr>
               else tmp_info)
            else tmp_info)
     in tmp_info)"

text \<open>
  The last part of \<^verbatim>\<open>IMU::getAction\<close> ("Process current action sequence"): the body
  of \<^verbatim>\<open>if (!action_info.isValid)\<close>, with the local \<^verbatim>\<open>index\<close> and the local
  \<^verbatim>\<open>tmp_info\<close> as they are at that point. A slot of the array is the element of the
  list at \<open>nat index\<close>.
\<close>

definition getAction_process :: "int \<Rightarrow> ImuAction \<Rightarrow> IMU \<Rightarrow> IMU" where
  "getAction_process index tmp_info this =
    (let isHoldDown = False;
         second = c_rem (index + ACTION_HISTORY_BUF_LEN - 1) ACTION_HISTORY_BUF_LEN;
         third = c_rem (index + ACTION_HISTORY_BUF_LEN - 2) ACTION_HISTORY_BUF_LEN;
         this = (if UNKNOWN \<noteq> active tmp_info
                 then this\<lparr>action_info :=
                        (action_info this)\<lparr>isValid := True, active := active tmp_info\<rparr>\<rparr>
                 else this)
     in if act_info_history this ! nat index = act_info_history this ! nat second
           \<and> act_info_history this ! nat second = act_info_history this ! nat third
        then
          (let (this, isHoldDown) =
                 (if UP = active tmp_info
                  then (this\<lparr>action_info :=
                          (action_info this)\<lparr>isValid := True, active := GO_FORWORD\<rparr>\<rparr>,
                        True)
                  else if DOWN = active tmp_info
                  then (this\<lparr>action_info :=
                          (action_info this)\<lparr>isValid := True, active := RETURN\<rparr>\<rparr>,
                        True)
                  else (this, isHoldDown))
           in if isHoldDown
              then this\<lparr>act_info_history :=
                     (act_info_history this)[nat second := UNKNOWN, nat third := UNKNOWN]\<rparr>
              else this)
        else this)"

text \<open>
  \<^verbatim>\<open>IMU::getAction\<close>: the cascades, then "Update action history buffer", then the part
  above under its test of the latch.
\<close>

definition getAction :: "Motion6 \<Rightarrow> Firmware \<Rightarrow> Firmware" where
  "getAction raw fw =
    (let this = mpu fw;
         tmp_info = getAction_tmp_info raw this;
         this = this\<lparr>act_info_history_ind :=
                  c_rem (act_info_history_ind this + 1) ACTION_HISTORY_BUF_LEN\<rparr>;
         index = act_info_history_ind this;
         this = this\<lparr>act_info_history := (act_info_history this)[nat index := active tmp_info]\<rparr>;
         this = (if \<not> isValid (action_info this)
                 then getAction_process index tmp_info this
                 else this)
     in fw\<lparr>mpu := this\<rparr>)"

text \<open>Successive calls of \<^verbatim>\<open>getAction\<close>, one for each sample of the list, oldest first.\<close>

definition getActions :: "Motion6 list \<Rightarrow> Firmware \<Rightarrow> Firmware" where
  "getActions raws fw = fold getAction raws fw"

section \<open>Reference definitions\<close>

text \<open>
  The array has its five slots and the write index is inside it. The constructor
  establishes this and every operation keeps it; outside it the source reads and writes
  past the array.
\<close>

definition history_ok :: "IMU \<Rightarrow> bool" where
  "history_ok this =
    (length (act_info_history this) = nat ACTION_HISTORY_BUF_LEN
     \<and> 0 \<le> act_info_history_ind this
     \<and> act_info_history_ind this < ACTION_HISTORY_BUF_LEN)"

text \<open>
  The device after start-up: the global \<^verbatim>\<open>IMU mpu\<close> is constructed on zeroed static
  storage, and the two encoder globals hold their zero values.
\<close>

definition boot :: Firmware where
  "boot = \<lparr>mpu = IMU_IMU zero_IMU, encoder_diff = 0, encoder_state = LV_INDEV_STATE_REL\<rparr>"

text \<open>
  Modelled from the spec: the caller's explicit reset of the latch (section 4.4: "an
  explicit reset/consume operation by the caller is required between actionable
  events"). No caller is among the sources; the member \<^verbatim>\<open>action_info\<close> is public and
  the reset is the store \<^verbatim>\<open>isValid = false\<close>.
\<close>

definition clear_valid :: "Firmware \<Rightarrow> Firmware" where
  "clear_valid fw = fw\<lparr>mpu := (mpu fw)\<lparr>action_info := (action_info (mpu fw))\<lparr>isValid := False\<rparr>\<rparr>\<rparr>"

text \<open>
  A state in which the two newest slots of the history hold \<^verbatim>\<open>UP\<close>, the write index is
  at the last slot and the latch is clear.
\<close>

definition two_UP :: Firmware where
  "two_UP =
    \<lparr>mpu = \<lparr>last_update_time = 0, order = 0,
            action_info = \<lparr>active = UP, isValid = False, long_time = True,
                           v_ax = 0, v_ay = 0, v_az = 0, v_gx = 0, v_gy = 0, v_gz = 0\<rparr>,
            act_info_history = [UNKNOWN, UNKNOWN, UNKNOWN, UP, UP],
            act_info_history_ind = 4\<rparr>,
     encoder_diff = 0, encoder_state = LV_INDEV_STATE_REL\<rparr>"

text \<open>A state in which the latch holds \<^verbatim>\<open>TURN_LEFT\<close>.\<close>

definition latched_TURN_LEFT :: Firmware where
  "latched_TURN_LEFT =
    \<lparr>mpu = \<lparr>last_update_time = 100, order = 0,
            action_info = \<lparr>active = TURN_LEFT, isValid = True, long_time = True,
                           v_ax = 0, v_ay = 4500, v_az = 0, v_gx = 0, v_gy = 0, v_gz = 0\<rparr>,
            act_info_history = [UNKNOWN, UNKNOWN, UNKNOWN, UNKNOWN, UNKNOWN],
            act_info_history_ind = 4\<rparr>,
     encoder_diff = - 1, encoder_state = LV_INDEV_STATE_REL\<rparr>"

text \<open>A sample with the given accelerations on X and Y and nothing else.\<close>

definition accel_sample :: "int16_t \<Rightarrow> int16_t \<Rightarrow> Motion6" where
  "accel_sample x y =
    \<lparr>raw_ax = x, raw_ay = y, raw_az = 0, raw_gx = 0, raw_gy = 0, raw_gz = 0\<rparr>"

text \<open>The six readings of an \<^verbatim>\<open>ImuAction\<close>, as a sample.\<close>

definition readings :: "ImuAction \<Rightarrow> Motion6" where
  "readings a =
    \<lparr>raw_ax = v_ax a, raw_ay = v_ay a, raw_az = v_az a,
     raw_gx = v_gx a, raw_gy = v_gy a, raw_gz = v_gz a\<rparr>"

subsection \<open>The orientation transform as the specification words it\<close>

text \<open>The four flags of the orientation configuration.\<close>

definition invert_X :: "uint8_t \<Rightarrow> bool" where
  "invert_X cfg = (cfg AND X_DIR_TYPE \<noteq> 0)"

definition invert_Y :: "uint8_t \<Rightarrow> bool" where
  "invert_Y cfg = (cfg AND Y_DIR_TYPE \<noteq> 0)"

definition invert_Z :: "uint8_t \<Rightarrow> bool" where
  "invert_Z cfg = (cfg AND Z_DIR_TYPE \<noteq> 0)"

definition swap_XY :: "uint8_t \<Rightarrow> bool" where
  "swap_XY cfg = (cfg AND XY_DIR_TYPE \<noteq> 0)"

definition negate_X :: "Motion6 \<Rightarrow> Motion6" where
  "negate_X s = s\<lparr>raw_ax := - raw_ax s, raw_gx := - raw_gx s\<rparr>"

definition negate_Y :: "Motion6 \<Rightarrow> Motion6" where
  "negate_Y s = s\<lparr>raw_ay := - raw_ay s, raw_gy := - raw_gy s\<rparr>"

definition negate_Z :: "Motion6 \<Rightarrow> Motion6" where
  "negate_Z s = s\<lparr>raw_az := - raw_az s, raw_gz := - raw_gz s\<rparr>"

definition exchange_XY :: "Motion6 \<Rightarrow> Motion6" where
  "exchange_XY s =
    s\<lparr>raw_ax := raw_ay s, raw_ay := raw_ax s, raw_gx := raw_gy s, raw_gy := raw_gx s\<rparr>"

text \<open>
  Section 4.1 of the specification: (1) negate X if invert-X, (2) negate Y if invert-Y,
  (3) negate Z if invert-Z, (4) then exchange X and Y if swap-XY.
\<close>

definition transform :: "Motion6 \<Rightarrow> uint8_t \<Rightarrow> Motion6" where
  "transform raw cfg =
    (let s1 = (if invert_X cfg then negate_X raw else raw);
         s2 = (if invert_Y cfg then negate_Y s1 else s1);
         s3 = (if invert_Z cfg then negate_Z s2 else s2);
         s4 = (if swap_XY cfg then exchange_XY s3 else s3)
     in s4)"

subsection \<open>The threshold cascade as the specification words it\<close>

text \<open>
  Section 4.2 of the specification, on one virtual sample; \<^verbatim>\<open>NONE\<close> is the enumerator
  \<^verbatim>\<open>UNKNOWN\<close>.
\<close>

definition classify :: "Motion6 \<Rightarrow> ACTIVE_TYPE" where
  "classify sample =
    (let ay = sint (raw_ay sample); ax = sint (raw_ax sample) in
     if ay > 4000 then TURN_LEFT
     else if ay < - 4000 then TURN_RIGHT
     else if \<bar>ay\<bar> > 1000 then SHAKE
     else if ax > 5000 then UP
     else if ax < - 5000 then DOWN
     else if \<bar>ax\<bar> > 1000 then SHAKE
     else UNKNOWN)"

section \<open>The orientation transform\<close>

lemma getVirtureMotion6_readings:
  "readings (getVirtureMotion6 ord raw a) = transform raw ord"
  by (simp add: getVirtureMotion6_def transform_def readings_def Let_def
      invert_X_def invert_Y_def invert_Z_def swap_XY_def
      negate_X_def negate_Y_def negate_Z_def exchange_XY_def)

lemma getVirtureMotion6_frame:
  "active (getVirtureMotion6 ord raw a) = active a"
  "isValid (getVirtureMotion6 ord raw a) = isValid a"
  "long_time (getVirtureMotion6 ord raw a) = long_time a"
  by (simp_all add: getVirtureMotion6_def Let_def)

lemma getVirtureMotion6_v:
  "v_ax (getVirtureMotion6 ord raw a) = raw_ax (transform raw ord)"
  "v_ay (getVirtureMotion6 ord raw a) = raw_ay (transform raw ord)"
  "v_az (getVirtureMotion6 ord raw a) = raw_az (transform raw ord)"
  "v_gx (getVirtureMotion6 ord raw a) = raw_gx (transform raw ord)"
  "v_gy (getVirtureMotion6 ord raw a) = raw_gy (transform raw ord)"
  "v_gz (getVirtureMotion6 ord raw a) = raw_gz (transform raw ord)"
  by (simp_all add: getVirtureMotion6_readings [of ord raw a, symmetric] readings_def)

text \<open>
  Claim C5. For every raw sample and every orientation byte, the readings that
  \<^verbatim>\<open>getVirtureMotion6\<close> leaves in the structure are those of the four steps of the
  specification in their order: X negated if invert-X, Y negated if invert-Y, Z negated
  if invert-Z, and then X and Y exchanged if swap-XY, so that the exchanged values are
  the ones already negated. The other members of the structure are not touched.
\<close>

theorem getVirtureMotion6_is_transform:
  "readings (getVirtureMotion6 ord raw a) = transform raw ord
   \<and> active (getVirtureMotion6 ord raw a) = active a
   \<and> isValid (getVirtureMotion6 ord raw a) = isValid a
   \<and> long_time (getVirtureMotion6 ord raw a) = long_time a
   \<and> v_ax (getVirtureMotion6 ord raw a) =
       (if swap_XY ord then (if invert_Y ord then - raw_ay raw else raw_ay raw)
        else (if invert_X ord then - raw_ax raw else raw_ax raw))
   \<and> v_ay (getVirtureMotion6 ord raw a) =
       (if swap_XY ord then (if invert_X ord then - raw_ax raw else raw_ax raw)
        else (if invert_Y ord then - raw_ay raw else raw_ay raw))
   \<and> v_gx (getVirtureMotion6 ord raw a) =
       (if swap_XY ord then (if invert_Y ord then - raw_gy raw else raw_gy raw)
        else (if invert_X ord then - raw_gx raw else raw_gx raw))
   \<and> v_gy (getVirtureMotion6 ord raw a) =
       (if swap_XY ord then (if invert_X ord then - raw_gx raw else raw_gx raw)
        else (if invert_Y ord then - raw_gy raw else raw_gy raw))
   \<and> v_az (getVirtureMotion6 ord raw a) = (if invert_Z ord then - raw_az raw else raw_az raw)
   \<and> v_gz (getVirtureMotion6 ord raw a) = (if invert_Z ord then - raw_gz raw else raw_gz raw)"
  by (simp add: getVirtureMotion6_def transform_def readings_def Let_def
      invert_X_def invert_Y_def invert_Z_def swap_XY_def
      negate_X_def negate_Y_def negate_Z_def exchange_XY_def)

section \<open>The classification call \<^verbatim>\<open>getAction\<close>\<close>

lemma c_rem_5: "0 \<le> a \<Longrightarrow> c_rem a 5 = a mod 5"
  by (simp add: c_rem_def sgn_if)

lemma c_rem_idx: "0 \<le> k \<Longrightarrow> c_rem (k + 1) 5 = (k + 1) mod 5"
  by (simp add: c_rem_5)

lemma c_rem_second: "0 \<le> i \<Longrightarrow> c_rem (i + 5 - 1) 5 = (i + 4) mod 5"
  by (simp add: c_rem_5 add.commute)

lemma c_rem_third: "0 \<le> i \<Longrightarrow> c_rem (i + 5 - 2) 5 = (i + 3) mod 5"
  by (simp add: c_rem_5 add.commute)

lemma getAction_tmp_info_active:
  "active (getAction_tmp_info raw this) =
    (let s = transform raw (order this); ay = sint (raw_ay s); ax = sint (raw_ax s);
         stale = sint (v_ax (action_info this)) in
     if ay > 4000 then TURN_LEFT
     else if ay < - 4000 then TURN_RIGHT
     else if \<bar>ay\<bar> > 1000 then SHAKE
     else if ax > 5000 then UP
     else if ax < - 5000 then DOWN
     else if \<bar>stale\<bar> > 1000 then SHAKE
     else UNKNOWN)"
  by (auto simp add: getAction_tmp_info_def Let_def getVirtureMotion6_v)

lemma getAction_tmp_info_classify:
  "(\<bar>sint (v_ax (action_info this))\<bar> > 1000) = (\<bar>sint (raw_ax (transform raw (order this)))\<bar> > 1000)
   \<Longrightarrow> active (getAction_tmp_info raw this) = classify (transform raw (order this))"
  by (simp add: getAction_tmp_info_active classify_def Let_def)

lemma getAction_process_frame:
  "act_info_history_ind (getAction_process i t this) = act_info_history_ind this"
  "order (getAction_process i t this) = order this"
  "last_update_time (getAction_process i t this) = last_update_time this"
  "long_time (action_info (getAction_process i t this)) = long_time (action_info this)"
  "readings (action_info (getAction_process i t this)) = readings (action_info this)"
  "length (act_info_history (getAction_process i t this)) = length (act_info_history this)"
  by (simp_all add: getAction_process_def Let_def readings_def split: prod.split)

lemma getAction_process_history:
  assumes "0 \<le> i"
  shows "act_info_history (getAction_process i t this) =
    (let h = act_info_history this; sec = (i + 4) mod 5; thd = (i + 3) mod 5
     in if h ! nat i = h ! nat sec \<and> h ! nat sec = h ! nat thd \<and> (active t = UP \<or> active t = DOWN)
        then h[nat sec := UNKNOWN, nat thd := UNKNOWN] else h)"
  unfolding getAction_process_def ACTION_HISTORY_BUF_LEN_def c_rem_second [OF assms] c_rem_third [OF assms]
  by (auto simp add: Let_def)

lemma getAction_process_action_info:
  assumes "0 \<le> i"
  shows "action_info (getAction_process i t this) =
    (let h = act_info_history this; sec = (i + 4) mod 5; thd = (i + 3) mod 5;
         same = (h ! nat i = h ! nat sec \<and> h ! nat sec = h ! nat thd)
     in if same \<and> active t = UP then (action_info this)\<lparr>isValid := True, active := GO_FORWORD\<rparr>
        else if same \<and> active t = DOWN then (action_info this)\<lparr>isValid := True, active := RETURN\<rparr>
        else if active t = UNKNOWN then action_info this
        else (action_info this)\<lparr>isValid := True, active := active t\<rparr>)"
  unfolding getAction_process_def ACTION_HISTORY_BUF_LEN_def c_rem_second [OF assms] c_rem_third [OF assms]
  by (auto simp add: Let_def)

lemma getAction_encoder:
  "encoder_diff (getAction raw fw) = encoder_diff fw"
  "encoder_state (getAction raw fw) = encoder_state fw"
  by (simp_all add: getAction_def Let_def)

lemma getAction_ind:
  "0 \<le> act_info_history_ind (mpu fw) \<Longrightarrow>
   act_info_history_ind (mpu (getAction raw fw)) = (act_info_history_ind (mpu fw) + 1) mod 5"
  by (simp add: getAction_def Let_def ACTION_HISTORY_BUF_LEN_def c_rem_idx getAction_process_frame)

lemma getAction_length:
  "length (act_info_history (mpu (getAction raw fw))) = length (act_info_history (mpu fw))"
  by (simp add: getAction_def Let_def getAction_process_frame)

lemma getAction_frame:
  "order (mpu (getAction raw fw)) = order (mpu fw)"
  "last_update_time (mpu (getAction raw fw)) = last_update_time (mpu fw)"
  "long_time (action_info (mpu (getAction raw fw))) = long_time (action_info (mpu fw))"
  "readings (action_info (mpu (getAction raw fw))) = readings (action_info (mpu fw))"
  by (simp_all add: getAction_def Let_def getAction_process_frame)

lemma getAction_history_ok:
  "history_ok (mpu fw) \<Longrightarrow> history_ok (mpu (getAction raw fw))"
  by (simp add: history_ok_def getAction_ind getAction_length ACTION_HISTORY_BUF_LEN_def)

lemma getAction_latched:
  "isValid (action_info (mpu fw)) \<Longrightarrow>
   isValid (action_info (mpu (getAction raw fw)))
   \<and> active (action_info (mpu (getAction raw fw))) = active (action_info (mpu fw))"
  by (simp add: getAction_def Let_def)


lemma getAction_mpu:
  assumes k: "0 \<le> act_info_history_ind (mpu fw)"
    and i: "i = (act_info_history_ind (mpu fw) + 1) mod 5"
    and h: "h = (act_info_history (mpu fw))[nat i := active (getAction_tmp_info raw (mpu fw))]"
    and this1: "this1 = (mpu fw)\<lparr>act_info_history_ind := i, act_info_history := h\<rparr>"
  shows "mpu (getAction raw fw) =
    (if \<not> isValid (action_info (mpu fw))
     then getAction_process i (getAction_tmp_info raw (mpu fw)) this1 else this1)"
  unfolding this1 h i
  by (simp add: getAction_def ACTION_HISTORY_BUF_LEN_def c_rem_idx [OF k] Let_def)

lemma getAction_history:
  assumes k: "0 \<le> act_info_history_ind (mpu fw)"
    and cl: "cl = active (getAction_tmp_info raw (mpu fw))"
    and i: "i = (act_info_history_ind (mpu fw) + 1) mod 5"
    and sec: "sec = (i + 4) mod 5" and thd: "thd = (i + 3) mod 5"
    and h: "h = (act_info_history (mpu fw))[nat i := cl]"
  shows "act_info_history (mpu (getAction raw fw)) =
    (if \<not> isValid (action_info (mpu fw))
        \<and> h ! nat i = h ! nat sec \<and> h ! nat sec = h ! nat thd \<and> (cl = UP \<or> cl = DOWN)
     then h[nat sec := UNKNOWN, nat thd := UNKNOWN] else h)"
proof -
  define this1 where "this1 = (mpu fw)\<lparr>act_info_history_ind := i, act_info_history := h\<rparr>"
  have i0: "0 \<le> i" by (simp add: i)
  have h1: "act_info_history this1 = h" by (simp add: this1_def)
  note step = getAction_mpu [OF k i h [unfolded cl] this1_def]
  show ?thesis
    unfolding step
    by (auto simp add: getAction_process_history [OF i0] h1 Let_def simp flip: sec thd cl
        simp del: nth_list_update_eq nth_list_update_neq)
qed

lemma getAction_action_info:
  assumes k: "0 \<le> act_info_history_ind (mpu fw)"
    and cl: "cl = active (getAction_tmp_info raw (mpu fw))"
    and i: "i = (act_info_history_ind (mpu fw) + 1) mod 5"
    and sec: "sec = (i + 4) mod 5" and thd: "thd = (i + 3) mod 5"
    and h: "h = (act_info_history (mpu fw))[nat i := cl]"
    and same: "same = (h ! nat i = h ! nat sec \<and> h ! nat sec = h ! nat thd)"
  shows "action_info (mpu (getAction raw fw)) =
    (if isValid (action_info (mpu fw)) then action_info (mpu fw)
     else if same \<and> cl = UP then (action_info (mpu fw))\<lparr>isValid := True, active := GO_FORWORD\<rparr>
     else if same \<and> cl = DOWN then (action_info (mpu fw))\<lparr>isValid := True, active := RETURN\<rparr>
     else if cl = UNKNOWN then action_info (mpu fw)
     else (action_info (mpu fw))\<lparr>isValid := True, active := cl\<rparr>)"
proof -
  define this1 where "this1 = (mpu fw)\<lparr>act_info_history_ind := i, act_info_history := h\<rparr>"
  have i0: "0 \<le> i" by (simp add: i)
  have h1: "act_info_history this1 = h" "action_info this1 = action_info (mpu fw)"
    by (simp_all add: this1_def)
  note step = getAction_mpu [OF k i h [unfolded cl] this1_def]
  show ?thesis
    unfolding step
    by (auto simp add: getAction_process_action_info [OF i0] h1 Let_def same simp flip: sec thd cl
        simp del: nth_list_update_eq nth_list_update_neq)
qed


lemma slots_distinct:
  assumes "0 \<le> (k::int)" "k < 5"
  shows "nat ((k + 4) mod 5) \<noteq> nat k" "nat ((k + 3) mod 5) \<noteq> nat k"
        "nat ((k + 4) mod 5) \<noteq> nat ((k + 3) mod 5)"
        "nat ((k + 4) mod 5) < 5" "nat ((k + 3) mod 5) < 5" "nat k < 5"
  using assms by (simp_all add: nat_eq_iff; presburger)+

lemma IMU_IMU_eq:
  assumes "length (act_info_history this) = 5"
  shows "IMU_IMU this =
    this\<lparr>action_info := (action_info this)\<lparr>isValid := False, active := UNKNOWN, long_time := True\<rparr>,
         act_info_history := [UNKNOWN, UNKNOWN, UNKNOWN, UNKNOWN, UNKNOWN],
         act_info_history_ind := 4, order := 0\<rparr>"
proof -
  from assms obtain a r1 where 1: "act_info_history this = a # r1" "length r1 = 4"
    by (cases "act_info_history this") auto
  then obtain b r2 where 2: "r1 = b # r2" "length r2 = 3" by (cases r1) auto
  then obtain c r3 where 3: "r2 = c # r3" "length r3 = 2" by (cases r2) auto
  then obtain d r4 where 4: "r3 = d # r4" "length r4 = 1" by (cases r3) auto
  then obtain e where 5: "r4 = [e]" by (cases r4) auto
  have h: "act_info_history this = [a, b, c, d, e]" using 1 2 3 4 5 by simp
  have u: "[0 ..< (5::nat)] = [0, 1, 2, 3, 4]" by (simp add: upt_rec)
  show ?thesis
    by (simp add: IMU_IMU_def ACTION_HISTORY_BUF_LEN_def Let_def u h)
qed

lemma boot_eq:
  "boot =
    \<lparr>mpu = \<lparr>last_update_time = 0, order = 0,
            action_info = \<lparr>active = UNKNOWN, isValid = False, long_time = True,
                           v_ax = 0, v_ay = 0, v_az = 0, v_gx = 0, v_gy = 0, v_gz = 0\<rparr>,
            act_info_history = [UNKNOWN, UNKNOWN, UNKNOWN, UNKNOWN, UNKNOWN],
            act_info_history_ind = 4\<rparr>,
     encoder_diff = 0, encoder_state = LV_INDEV_STATE_REL\<rparr>"
  by (simp add: boot_def IMU_IMU_eq zero_IMU_def zero_ImuAction_def)

text \<open>The equations that evaluate the operations on a concrete state.\<close>

lemmas eval_simps =
  getAction_def getAction_tmp_info_def getAction_process_def getVirtureMotion6_def
  tmp_info_local_def zero_ImuAction_def
  Let_def c_rem_def ACTION_HISTORY_BUF_LEN_def
  X_DIR_TYPE_def Y_DIR_TYPE_def Z_DIR_TYPE_def XY_DIR_TYPE_def accel_sample_def
  getActions_def clear_valid_def

text \<open>
  Claim C2. In a state with the latch clear (and the history array and its index in
  order), \<^verbatim>\<open>getAction\<close> moves the write index to the next slot and stores the
  classification \<open>cl\<close> of the call there. If then the three newest slots (the one
  written, the one before, the one two before, indices modulo 5) are equal and \<open>cl\<close> is
  \<^verbatim>\<open>UP\<close>, the latch becomes valid with kind \<^verbatim>\<open>GO_FORWORD\<close>; if \<open>cl\<close> is \<^verbatim>\<open>DOWN\<close>,
  with kind \<^verbatim>\<open>RETURN\<close>. In exactly these two cases the two older slots are set to
  \<^verbatim>\<open>UNKNOWN\<close>, the newest slot keeps \<open>cl\<close> and the other slots are as before; in
  every other case the history is the old one with \<open>cl\<close> stored in the newest slot.
\<close>

theorem getAction_promotion:
  assumes ok: "history_ok (mpu fw)" and clear: "\<not> isValid (action_info (mpu fw))"
  shows "let fw' = getAction raw fw;
             cl = active (getAction_tmp_info raw (mpu fw));
             i = (act_info_history_ind (mpu fw) + 1) mod 5;
             sec = (i + 4) mod 5; thd = (i + 3) mod 5;
             h = (act_info_history (mpu fw))[nat i := cl];
             same = (h ! nat i = h ! nat sec \<and> h ! nat sec = h ! nat thd);
             h' = act_info_history (mpu fw'); a' = action_info (mpu fw')
         in act_info_history_ind (mpu fw') = i
          \<and> (if same \<and> cl = UP
               then isValid a' \<and> active a' = GO_FORWORD
                  \<and> h' = h[nat sec := UNKNOWN, nat thd := UNKNOWN]
                  \<and> h' ! nat i = UP \<and> h' ! nat sec = UNKNOWN \<and> h' ! nat thd = UNKNOWN
              else if same \<and> cl = DOWN
               then isValid a' \<and> active a' = RETURN
                  \<and> h' = h[nat sec := UNKNOWN, nat thd := UNKNOWN]
                  \<and> h' ! nat i = DOWN \<and> h' ! nat sec = UNKNOWN \<and> h' ! nat thd = UNKNOWN
              else h' = h
                  \<and> (if cl = UNKNOWN then a' = action_info (mpu fw)
                      else isValid a' \<and> active a' = cl))"
proof -
  define cl where "cl = active (getAction_tmp_info raw (mpu fw))"
  define i where "i = (act_info_history_ind (mpu fw) + 1) mod 5"
  define sec where "sec = (i + 4) mod 5"
  define thd where "thd = (i + 3) mod 5"
  define h where "h = (act_info_history (mpu fw))[nat i := cl]"
  define same where "same = (h ! nat i = h ! nat sec \<and> h ! nat sec = h ! nat thd)"
  from ok have k: "0 \<le> act_info_history_ind (mpu fw)"
    and len: "length (act_info_history (mpu fw)) = 5"
    by (simp_all add: history_ok_def ACTION_HISTORY_BUF_LEN_def)
  have i: "0 \<le> i" "i < 5" by (simp_all add: i_def)
  have lh: "length h = 5" by (simp add: h_def len)
  note d = slots_distinct [OF i, folded sec_def thd_def]
  have hi: "h ! nat i = cl" using d(6) by (simp add: h_def len)
  have ind: "act_info_history_ind (mpu (getAction raw fw)) = i"
    by (simp add: getAction_ind [OF k] i_def)
  note H = getAction_history [OF k cl_def i_def sec_def thd_def h_def]
  note A = getAction_action_info [OF k cl_def i_def sec_def thd_def h_def same_def]
  have up: "same \<and> cl = UP \<Longrightarrow>
      isValid (action_info (mpu (getAction raw fw)))
      \<and> active (action_info (mpu (getAction raw fw))) = GO_FORWORD
      \<and> act_info_history (mpu (getAction raw fw)) = h[nat sec := UNKNOWN, nat thd := UNKNOWN]
      \<and> act_info_history (mpu (getAction raw fw)) ! nat i = UP
      \<and> act_info_history (mpu (getAction raw fw)) ! nat sec = UNKNOWN
      \<and> act_info_history (mpu (getAction raw fw)) ! nat thd = UNKNOWN"
    using clear d hi by (auto simp add: H A lh same_def)
  have down: "same \<and> cl = DOWN \<Longrightarrow>
      isValid (action_info (mpu (getAction raw fw)))
      \<and> active (action_info (mpu (getAction raw fw))) = RETURN
      \<and> act_info_history (mpu (getAction raw fw)) = h[nat sec := UNKNOWN, nat thd := UNKNOWN]
      \<and> act_info_history (mpu (getAction raw fw)) ! nat i = DOWN
      \<and> act_info_history (mpu (getAction raw fw)) ! nat sec = UNKNOWN
      \<and> act_info_history (mpu (getAction raw fw)) ! nat thd = UNKNOWN"
    using clear d hi by (auto simp add: H A lh same_def)
  have other: "\<not> (same \<and> cl = UP) \<Longrightarrow> \<not> (same \<and> cl = DOWN) \<Longrightarrow>
      act_info_history (mpu (getAction raw fw)) = h
      \<and> (if cl = UNKNOWN then action_info (mpu (getAction raw fw)) = action_info (mpu fw)
          else isValid (action_info (mpu (getAction raw fw)))
             \<and> active (action_info (mpu (getAction raw fw))) = cl)"
    using clear unfolding H A same_def by auto
  show ?thesis
    unfolding Let_def
    unfolding cl_def [symmetric] i_def [symmetric]
    unfolding sec_def [symmetric] thd_def [symmetric]
    unfolding h_def [symmetric]
    unfolding same_def [symmetric]
    using ind up down other by (simp only: if_split simp_thms) blast
qed


theorem getAction_promotion_witness:
  "history_ok (mpu two_UP) \<and> \<not> isValid (action_info (mpu two_UP))
   \<and> act_info_history_ind (mpu (getAction (accel_sample 5500 0) two_UP)) = 0
   \<and> active (getAction_tmp_info (accel_sample 5500 0) (mpu two_UP)) = UP
   \<and> isValid (action_info (mpu (getAction (accel_sample 5500 0) two_UP)))
   \<and> active (action_info (mpu (getAction (accel_sample 5500 0) two_UP))) = GO_FORWORD
   \<and> act_info_history (mpu (getAction (accel_sample 5500 0) two_UP))
       = [UP, UNKNOWN, UNKNOWN, UNKNOWN, UNKNOWN]"
proof -
  have ok: "history_ok (mpu two_UP)"
    by (simp add: history_ok_def two_UP_def ACTION_HISTORY_BUF_LEN_def)
  have clear: "\<not> isValid (action_info (mpu two_UP))"
    by (simp add: two_UP_def)
  have cl: "active (getAction_tmp_info (accel_sample 5500 0) (mpu two_UP)) = UP"
    by (simp add: eval_simps two_UP_def)
  have st: "act_info_history (mpu two_UP) = [UNKNOWN, UNKNOWN, UNKNOWN, UP, UP]"
    "act_info_history_ind (mpu two_UP) = 4"
    by (simp_all add: two_UP_def)
  show ?thesis
    using getAction_promotion [OF ok clear, of "accel_sample 5500 0"] ok clear
    by (simp add: Let_def cl st)
qed

text \<open>
  Claim C3, as stated, at the device after start-up: three calls of \<^verbatim>\<open>getAction\<close> with
  ay = 0 and ax = 5500 do not end with a latch of kind \<^verbatim>\<open>GO_FORWORD\<close>.
\<close>

theorem three_UP_not_FORWARD:
  "\<not> (active (action_info (mpu (getActions
          [accel_sample 5500 0, accel_sample 5500 0, accel_sample 5500 0] boot))) = GO_FORWORD
      \<and> isValid (action_info (mpu (getActions
          [accel_sample 5500 0, accel_sample 5500 0, accel_sample 5500 0] boot)))
      \<and> long_time (action_info (mpu (getActions
          [accel_sample 5500 0, accel_sample 5500 0, accel_sample 5500 0] boot))))"
  by (simp add: eval_simps boot_eq)

text \<open>
  Three calls of \<^verbatim>\<open>getAction\<close> with ay = 0 and ax = 5500 from the state the constructor
  leaves, where the caller may reset the latch after the first call (\<open>c1\<close>) and after the
  second (\<open>c2\<close>). The three calls write \<^verbatim>\<open>UP\<close> into three successive slots whatever the
  latch is, so the outcome depends on the latch before the third call alone: kind
  \<^verbatim>\<open>GO_FORWORD\<close> and the two older slots reset if it was cleared after the second call,
  kind \<^verbatim>\<open>UP\<close> and no slot reset if not.
\<close>

lemma three_UP_with_resets:
  assumes len: "length (act_info_history this0) = 5"
    and s: "raw_ax s = 5500" "raw_ay s = 0"
  shows "let fresh = \<lparr>mpu = IMU_IMU this0, encoder_diff = d, encoder_state = e\<rparr>;
             fw1 = getAction s fresh;
             fw2 = getAction s (if c1 then clear_valid fw1 else fw1);
             fw3 = getAction s (if c2 then clear_valid fw2 else fw2)
         in \<not> isValid (action_info (mpu fresh))
          \<and> act_info_history (mpu fresh) = [UNKNOWN, UNKNOWN, UNKNOWN, UNKNOWN, UNKNOWN]
          \<and> isValid (action_info (mpu fw3))
          \<and> long_time (action_info (mpu fw3))
          \<and> active (action_info (mpu fw3)) = (if c2 then GO_FORWORD else UP)
          \<and> act_info_history (mpu fw3) =
              (if c2 then [UNKNOWN, UNKNOWN, UP, UNKNOWN, UNKNOWN]
               else [UP, UP, UP, UNKNOWN, UNKNOWN])
          \<and> act_info_history_ind (mpu fw3) = 2"
proof -
  obtain t ord a h k where this0:
    "this0 = \<lparr>last_update_time = t, order = ord, action_info = a,
             act_info_history = h, act_info_history_ind = k\<rparr>"
    by (cases this0)
  obtain ac va lt x1 x2 x3 x4 x5 x6 where a:
    "a = \<lparr>active = ac, isValid = va, long_time = lt,
          v_ax = x1, v_ay = x2, v_az = x3, v_gx = x4, v_gy = x5, v_gz = x6\<rparr>"
    by (cases a)
  obtain r1 r2 r3 r4 r5 r6 where r:
    "s = \<lparr>raw_ax = r1, raw_ay = r2, raw_az = r3, raw_gx = r4, raw_gy = r5, raw_gz = r6\<rparr>"
    by (cases s)
  from len have len': "length h = 5" by (simp add: this0)
  have fresh: "IMU_IMU this0 =
    \<lparr>last_update_time = t, order = 0,
     action_info = \<lparr>active = UNKNOWN, isValid = False, long_time = True,
          v_ax = x1, v_ay = x2, v_az = x3, v_gx = x4, v_gy = x5, v_gz = x6\<rparr>,
     act_info_history = [UNKNOWN, UNKNOWN, UNKNOWN, UNKNOWN, UNKNOWN],
     act_info_history_ind = 4\<rparr>"
    unfolding IMU_IMU_eq [OF len] by (simp add: this0 a)
  from s have r12: "r1 = 5500" "r2 = 0" by (simp_all add: r)
  define fresh where "fresh = \<lparr>mpu = IMU_IMU this0, encoder_diff = d, encoder_state = e\<rparr>"
  define held where "held = \<lparr>active = UP, isValid = True, long_time = True,
          v_ax = x1, v_ay = x2, v_az = x3, v_gx = x4, v_gy = x5, v_gz = x6\<rparr>"
  define st where "st = (\<lambda>act hist ind.
    \<lparr>mpu = \<lparr>last_update_time = t, order = 0, action_info = act,
            act_info_history = hist, act_info_history_ind = ind\<rparr>,
     encoder_diff = d, encoder_state = e\<rparr>)"
  have 1: "getAction s fresh = st held [UP, UNKNOWN, UNKNOWN, UNKNOWN, UNKNOWN] 0"
    unfolding fresh_def fresh r r12 st_def held_def by (simp add: eval_simps)
  have 2: "getAction s (st held [UP, UNKNOWN, UNKNOWN, UNKNOWN, UNKNOWN] 0)
      = st held [UP, UP, UNKNOWN, UNKNOWN, UNKNOWN] 1"
    unfolding r r12 st_def held_def by (simp add: eval_simps)
  have 3: "getAction s (st held [UP, UP, UNKNOWN, UNKNOWN, UNKNOWN] 1)
      = st held [UP, UP, UP, UNKNOWN, UNKNOWN] 2"
    unfolding r r12 st_def held_def by (simp add: eval_simps)
  have c: "clear_valid (st held hist ind) = st (held\<lparr>isValid := False\<rparr>) hist ind" for hist ind
    unfolding st_def by (simp add: clear_valid_def)
  have c2: "getAction s (st (held\<lparr>isValid := False\<rparr>) [UP, UNKNOWN, UNKNOWN, UNKNOWN, UNKNOWN] 0)
      = st held [UP, UP, UNKNOWN, UNKNOWN, UNKNOWN] 1"
    unfolding r r12 st_def held_def by (simp add: eval_simps)
  have c3: "getAction s (st (held\<lparr>isValid := False\<rparr>) [UP, UP, UNKNOWN, UNKNOWN, UNKNOWN] 1)
      = st (held\<lparr>active := GO_FORWORD\<rparr>) [UNKNOWN, UNKNOWN, UP, UNKNOWN, UNKNOWN] 2"
    unfolding r r12 st_def held_def by (simp add: eval_simps)
  have F: "\<not> isValid (action_info (mpu fresh))"
    "act_info_history (mpu fresh) = [UNKNOWN, UNKNOWN, UNKNOWN, UNKNOWN, UNKNOWN]"
    by (simp_all add: fresh_def fresh)
  have second: "getAction s (if c1 then clear_valid (getAction s fresh) else getAction s fresh)
      = st held [UP, UP, UNKNOWN, UNKNOWN, UNKNOWN] 1"
    by (cases c1) (simp_all add: 1 2 c c2)
  have third: "getAction s (if c2 then clear_valid (st held [UP, UP, UNKNOWN, UNKNOWN, UNKNOWN] 1)
                           else st held [UP, UP, UNKNOWN, UNKNOWN, UNKNOWN] 1)
      = (if c2 then st (held\<lparr>active := GO_FORWORD\<rparr>) [UNKNOWN, UNKNOWN, UP, UNKNOWN, UNKNOWN] 2
         else st held [UP, UP, UP, UNKNOWN, UNKNOWN] 2)"
    by (cases c2) (simp_all add: 3 c c3)
  show ?thesis
    unfolding Let_def fresh_def [symmetric] second third
    using F by (simp add: st_def held_def)
qed

text \<open>
  Claim C3, amended. From the state the constructor leaves (latch clear, every slot
  \<^verbatim>\<open>UNKNOWN\<close>), three consecutive calls of \<^verbatim>\<open>getAction\<close> with ay = 0 and ax = 5500
  end with the latch valid, of kind \<^verbatim>\<open>UP\<close>, with \<^verbatim>\<open>long_time\<close> true, and with the
  three slots written all \<^verbatim>\<open>UP\<close>, none of them reset: the first call sets the latch and
  the set latch keeps the next two calls from the promotion.
\<close>

theorem three_UP_latches_UP:
  assumes len: "length (act_info_history this0) = 5"
    and s: "raw_ax s = 5500" "raw_ay s = 0"
  shows "let fresh = \<lparr>mpu = IMU_IMU this0, encoder_diff = d, encoder_state = e\<rparr>;
             fw = getActions [s, s, s] fresh
         in \<not> isValid (action_info (mpu fresh))
          \<and> act_info_history (mpu fresh) = [UNKNOWN, UNKNOWN, UNKNOWN, UNKNOWN, UNKNOWN]
          \<and> active (action_info (mpu fw)) = UP
          \<and> isValid (action_info (mpu fw))
          \<and> long_time (action_info (mpu fw))
          \<and> act_info_history (mpu fw) = [UP, UP, UP, UNKNOWN, UNKNOWN]
          \<and> act_info_history_ind (mpu fw) = 2"
  using three_UP_with_resets [OF len s, of d e False False]
  by (simp add: Let_def getActions_def)

theorem three_UP_latches_UP_witness:
  "length (act_info_history zero_IMU) = 5
   \<and> raw_ax (accel_sample 5500 0) = 5500 \<and> raw_ay (accel_sample 5500 0) = 0
   \<and> active (action_info (mpu (getActions
        [accel_sample 5500 0, accel_sample 5500 0, accel_sample 5500 0] boot))) = UP
   \<and> act_info_history (mpu (getActions
        [accel_sample 5500 0, accel_sample 5500 0, accel_sample 5500 0] boot))
       = [UP, UP, UP, UNKNOWN, UNKNOWN]"
proof -
  have len: "length (act_info_history zero_IMU) = 5" by (simp add: zero_IMU_def)
  have s: "raw_ax (accel_sample 5500 0) = 5500" "raw_ay (accel_sample 5500 0) = 0"
    by (simp_all add: accel_sample_def)
  show ?thesis
    using three_UP_latches_UP [OF len s, of 0 LV_INDEV_STATE_REL] len s
    by (simp add: Let_def boot_def)
qed

lemma getActions_latched:
  "isValid (action_info (mpu fw)) \<Longrightarrow>
   isValid (action_info (mpu (getActions raws fw)))
   \<and> active (action_info (mpu (getActions raws fw))) = active (action_info (mpu fw))"
proof (induction raws arbitrary: fw)
  case Nil
  then show ?case by (simp add: getActions_def)
next
  case (Cons r rs)
  from getAction_latched [OF Cons.prems, of r]
  have 1: "isValid (action_info (mpu (getAction r fw)))"
    and 2: "active (action_info (mpu (getAction r fw))) = active (action_info (mpu fw))"
    by simp_all
  have "getActions (r # rs) fw = getActions rs (getAction r fw)"
    by (simp add: getActions_def)
  with Cons.IH [OF 1] 2 show ?case by simp
qed

lemma update_latched:
  "isValid (action_info (mpu fw)) \<Longrightarrow>
   isValid (action_info (mpu (fst (update interval now1 raw1 raw2 now2 fw))))
   \<and> active (action_info (mpu (fst (update interval now1 raw1 raw2 now2 fw))))
       = active (action_info (mpu fw))"
  by (simp add: update_def Let_def getVirtureMotion6_frame)

text \<open>
  Claim C6. Once the latch is valid, no call of \<^verbatim>\<open>getAction\<close>, and no sequence of such
  calls, changes the latched kind or the valid flag, whatever the samples are; the
  promotion is not evaluated either. \<^verbatim>\<open>update\<close> leaves a valid latch as it is too, so
  the driver never clears it.
\<close>

theorem latch_kept:
  assumes "isValid (action_info (mpu fw))"
  shows "isValid (action_info (mpu (getAction raw fw)))
   \<and> active (action_info (mpu (getAction raw fw))) = active (action_info (mpu fw))
   \<and> isValid (action_info (mpu (getActions raws fw)))
   \<and> active (action_info (mpu (getActions raws fw))) = active (action_info (mpu fw))
   \<and> isValid (action_info (mpu (fst (update interval now1 raw1 raw2 now2 fw))))
   \<and> active (action_info (mpu (fst (update interval now1 raw1 raw2 now2 fw))))
       = active (action_info (mpu fw))"
  using getAction_latched [OF assms] getActions_latched [OF assms] update_latched [OF assms]
  by simp

theorem latch_kept_witness:
  "isValid (action_info (mpu latched_TURN_LEFT))
   \<and> isValid (action_info (mpu (getActions
        [accel_sample 5500 0, accel_sample 5500 0, accel_sample 5500 0] latched_TURN_LEFT)))
   \<and> active (action_info (mpu (getActions
        [accel_sample 5500 0, accel_sample 5500 0, accel_sample 5500 0] latched_TURN_LEFT)))
       = TURN_LEFT
   \<and> active (action_info (mpu (fst (update 50 200 (accel_sample 0 (- 4500))
        (accel_sample 0 0) 200 latched_TURN_LEFT)))) = TURN_LEFT"
proof -
  have v: "isValid (action_info (mpu latched_TURN_LEFT))"
    by (simp add: latched_TURN_LEFT_def)
  have a: "active (action_info (mpu latched_TURN_LEFT)) = TURN_LEFT"
    by (simp add: latched_TURN_LEFT_def)
  show ?thesis
    using latch_kept [OF v, of _
        "[accel_sample 5500 0, accel_sample 5500 0, accel_sample 5500 0]"
        50 200 "accel_sample 0 (- 4500)" "accel_sample 0 0" 200] v
    by (simp add: a)
qed

lemmas update_eval_simps = update_def update_rotation_def update_linear_def

lemma getActions_Cons: "getActions (r # rs) fw = getActions rs (getAction r fw)"
  by (simp add: getActions_def)

lemma getActions_snoc: "getActions (rs @ [r]) fw = getAction r (getActions rs fw)"
  by (simp add: getActions_def)

lemma getActions_ind:
  "0 \<le> act_info_history_ind (mpu fw) \<Longrightarrow> act_info_history_ind (mpu fw) < 5 \<Longrightarrow>
   act_info_history_ind (mpu (getActions raws fw))
     = (act_info_history_ind (mpu fw) + int (length raws)) mod 5"
proof (induction raws arbitrary: fw)
  case Nil
  then show ?case by (simp add: getActions_def)
next
  case (Cons r rs)
  have step: "act_info_history_ind (mpu (getAction r fw)) = (act_info_history_ind (mpu fw) + 1) mod 5"
    by (rule getAction_ind [OF Cons.prems(1)])
  have "act_info_history_ind (mpu (getActions rs (getAction r fw)))
      = (act_info_history_ind (mpu (getAction r fw)) + int (length rs)) mod 5"
    by (rule Cons.IH) (simp_all add: step)
  also have "\<dots> = (act_info_history_ind (mpu fw) + int (length (r # rs))) mod 5"
    unfolding step by (simp add: mod_add_left_eq add.assoc)
  finally show ?case by (simp only: getActions_Cons)
qed

lemma getActions_encoder:
  "encoder_diff (getActions raws fw) = encoder_diff fw"
  "encoder_state (getActions raws fw) = encoder_state fw"
  by (induction raws arbitrary: fw) (simp_all add: getActions_def getAction_encoder)

text \<open>
  Claim C7. Every call of \<^verbatim>\<open>getAction\<close> moves the write index to the next slot modulo
  5, whatever the sample and whatever the latch: after any list of calls the index is
  the old one plus the number of calls, modulo 5; after five calls it is back where it
  was, having taken five different values on the way. The constructor leaves
  \<^verbatim>\<open>UNKNOWN\<close> in each of the five slots and the index at the last slot.
\<close>

theorem write_index_cycles:
  assumes ok: "history_ok (mpu fw)" and len: "length (act_info_history this0) = 5"
  shows "act_info_history_ind (mpu (getAction raw fw)) = (act_info_history_ind (mpu fw) + 1) mod 5
   \<and> act_info_history_ind (mpu (getAction raw fw)) \<noteq> act_info_history_ind (mpu fw)
   \<and> act_info_history_ind (mpu (getActions raws fw))
       = (act_info_history_ind (mpu fw) + int (length raws)) mod 5
   \<and> act_info_history_ind (mpu (getActions [r1, r2, r3, r4, r5] fw)) = act_info_history_ind (mpu fw)
   \<and> distinct [act_info_history_ind (mpu (getActions [r1] fw)),
                act_info_history_ind (mpu (getActions [r1, r2] fw)),
                act_info_history_ind (mpu (getActions [r1, r2, r3] fw)),
                act_info_history_ind (mpu (getActions [r1, r2, r3, r4] fw)),
                act_info_history_ind (mpu (getActions [r1, r2, r3, r4, r5] fw))]
   \<and> history_ok (mpu (getAction raw fw))
   \<and> act_info_history (IMU_IMU this0) = [UNKNOWN, UNKNOWN, UNKNOWN, UNKNOWN, UNKNOWN]
   \<and> act_info_history_ind (IMU_IMU this0) = 4
   \<and> history_ok (IMU_IMU this0)"
proof -
  from ok have k: "0 \<le> act_info_history_ind (mpu fw)" "act_info_history_ind (mpu fw) < 5"
    by (simp_all add: history_ok_def ACTION_HISTORY_BUF_LEN_def)
  note one = getAction_ind [OF k(1), of raw]
  note many = getActions_ind [OF k]
  have cases: "act_info_history_ind (mpu fw) = 0 \<or> act_info_history_ind (mpu fw) = 1
      \<or> act_info_history_ind (mpu fw) = 2 \<or> act_info_history_ind (mpu fw) = 3
      \<or> act_info_history_ind (mpu fw) = 4"
    using k by arith
  have ne: "act_info_history_ind (mpu (getAction raw fw)) \<noteq> act_info_history_ind (mpu fw)"
    unfolding one using cases by (elim disjE) simp_all
  have five: "act_info_history_ind (mpu (getActions [r1, r2, r3, r4, r5] fw))
      = act_info_history_ind (mpu fw)"
    unfolding many using k by simp
  have dist: "distinct [act_info_history_ind (mpu (getActions [r1] fw)),
                act_info_history_ind (mpu (getActions [r1, r2] fw)),
                act_info_history_ind (mpu (getActions [r1, r2, r3] fw)),
                act_info_history_ind (mpu (getActions [r1, r2, r3, r4] fw)),
                act_info_history_ind (mpu (getActions [r1, r2, r3, r4, r5] fw))]"
    unfolding many using cases by (elim disjE) simp_all
  have init: "act_info_history (IMU_IMU this0) = [UNKNOWN, UNKNOWN, UNKNOWN, UNKNOWN, UNKNOWN]"
    "act_info_history_ind (IMU_IMU this0) = 4" "history_ok (IMU_IMU this0)"
    by (simp_all add: IMU_IMU_eq [OF len] history_ok_def ACTION_HISTORY_BUF_LEN_def)
  show ?thesis
    using one ne many five dist getAction_history_ok [OF ok] init by (intro conjI)
qed

theorem write_index_cycles_witness:
  "history_ok (mpu boot) \<and> length (act_info_history zero_IMU) = 5
   \<and> act_info_history_ind (mpu (getAction (accel_sample 0 0) boot)) = 0
   \<and> act_info_history_ind (mpu (getActions
        [accel_sample 1 0, accel_sample 2 0, accel_sample 3 0, accel_sample 4 0,
         accel_sample 5 0] boot)) = 4
   \<and> act_info_history (IMU_IMU zero_IMU) = [UNKNOWN, UNKNOWN, UNKNOWN, UNKNOWN, UNKNOWN]"
proof -
  have ok: "history_ok (mpu boot)"
    by (simp add: boot_eq history_ok_def ACTION_HISTORY_BUF_LEN_def)
  have len: "length (act_info_history zero_IMU) = 5" by (simp add: zero_IMU_def)
  have i: "act_info_history_ind (mpu boot) = 4" by (simp add: boot_eq)
  show ?thesis
    using write_index_cycles [OF ok len, of "accel_sample 0 0" "[]"
        "accel_sample 1 0" "accel_sample 2 0" "accel_sample 3 0" "accel_sample 4 0"
        "accel_sample 5 0"] ok len
    by (simp add: i)
qed

text \<open>
  Claim C10. No call of \<^verbatim>\<open>getAction\<close>, and no sequence of such calls, changes
  \<^verbatim>\<open>encoder_diff\<close> or \<^verbatim>\<open>encoder_state\<close>, whatever the sample and the state before, a
  call that promotes to \<^verbatim>\<open>GO_FORWORD\<close> included (the call on \<open>two_UP\<close> is one);
  \<^verbatim>\<open>update\<close> is the operation that writes them (on the device after start-up it
  changes the one for a left turn and the other for a confirmed push).
\<close>

theorem getAction_leaves_encoder:
  "encoder_diff (getAction raw fw) = encoder_diff fw
   \<and> encoder_state (getAction raw fw) = encoder_state fw
   \<and> encoder_diff (getActions raws fw) = encoder_diff fw
   \<and> encoder_state (getActions raws fw) = encoder_state fw
   \<and> active (action_info (mpu (getAction (accel_sample 5500 0) two_UP))) = GO_FORWORD
   \<and> encoder_state (getAction (accel_sample 5500 0) two_UP) = LV_INDEV_STATE_REL
   \<and> encoder_diff (getAction (accel_sample 5500 0) two_UP) = 0
   \<and> encoder_diff (fst (update 50 100 (accel_sample 0 4500) (accel_sample 0 4500) 100 boot))
       \<noteq> encoder_diff boot
   \<and> encoder_state (fst (update 50 100 (accel_sample 5500 0) (accel_sample 5500 0) 100 boot))
       \<noteq> encoder_state boot"
proof -
  have p: "active (action_info (mpu (getAction (accel_sample 5500 0) two_UP))) = GO_FORWORD"
    by (simp add: eval_simps two_UP_def)
  have e: "encoder_state two_UP = LV_INDEV_STATE_REL" "encoder_diff two_UP = 0"
    by (simp_all add: two_UP_def)
  have u: "encoder_diff (fst (update 50 100 (accel_sample 0 4500) (accel_sample 0 4500) 100 boot))
       \<noteq> encoder_diff boot"
    by (simp add: update_eval_simps eval_simps boot_eq)
  have v: "encoder_state (fst (update 50 100 (accel_sample 5500 0) (accel_sample 5500 0) 100 boot))
       \<noteq> encoder_state boot"
    by (simp add: update_eval_simps eval_simps boot_eq)
  show ?thesis
    using p u v by (simp add: getAction_encoder getActions_encoder e)
qed

text \<open>
  Claim C1 at two inputs. After an \<^verbatim>\<open>update\<close> that read ax = 0, a call of
  \<^verbatim>\<open>getAction\<close> with ay = 0 and ax = 2000 classifies the sample as \<^verbatim>\<open>UNKNOWN\<close>, stores
  \<^verbatim>\<open>UNKNOWN\<close> in the slot and leaves the latch clear, where the cascade of the
  specification gives \<^verbatim>\<open>SHAKE\<close>. After an \<^verbatim>\<open>update\<close> that read ax = 2000, a call with
  ay = 0 and ax = 0 classifies the sample as \<^verbatim>\<open>SHAKE\<close> and stores \<^verbatim>\<open>SHAKE\<close> in the slot,
  where the cascade gives \<^verbatim>\<open>UNKNOWN\<close>: the last test of the linear cascade reads the
  reading that \<^verbatim>\<open>update\<close> left in \<^verbatim>\<open>action_info\<close>, not the sample of the call.
\<close>

theorem getAction_linear_SHAKE_reads_stale_ax:
  "classify (transform (accel_sample 2000 0)
      (order (mpu (fst (update 50 100 (accel_sample 0 0) (accel_sample 0 0) 100 boot))))) = SHAKE
   \<and> active (getAction_tmp_info (accel_sample 2000 0)
        (mpu (fst (update 50 100 (accel_sample 0 0) (accel_sample 0 0) 100 boot)))) = UNKNOWN
   \<and> act_info_history (mpu (getAction (accel_sample 2000 0)
        (fst (update 50 100 (accel_sample 0 0) (accel_sample 0 0) 100 boot))))
       = [UNKNOWN, UNKNOWN, UNKNOWN, UNKNOWN, UNKNOWN]
   \<and> \<not> isValid (action_info (mpu (getAction (accel_sample 2000 0)
        (fst (update 50 100 (accel_sample 0 0) (accel_sample 0 0) 100 boot)))))
   \<and> classify (transform (accel_sample 0 0)
      (order (mpu (fst (update 50 100 (accel_sample 2000 0) (accel_sample 0 0) 100 boot))))) = UNKNOWN
   \<and> active (getAction_tmp_info (accel_sample 0 0)
        (mpu (fst (update 50 100 (accel_sample 2000 0) (accel_sample 0 0) 100 boot)))) = SHAKE
   \<and> act_info_history (mpu (getAction (accel_sample 0 0)
        (fst (update 50 100 (accel_sample 2000 0) (accel_sample 0 0) 100 boot))))
       = [SHAKE, UNKNOWN, UNKNOWN, UNKNOWN, UNKNOWN]"
proof -
  have s0: "fst (update 50 100 (accel_sample 0 0) (accel_sample 0 0) 100 boot)
      = boot\<lparr>mpu := (mpu boot)\<lparr>last_update_time := 100\<rparr>\<rparr>"
    by (simp add: update_eval_simps eval_simps boot_eq)
  have s1: "fst (update 50 100 (accel_sample 2000 0) (accel_sample 0 0) 100 boot)
      = boot\<lparr>mpu := (mpu boot)\<lparr>last_update_time := 100,
           action_info := (action_info (mpu boot))
             \<lparr>active := SHAKE, isValid := True, v_ax := 2000\<rparr>\<rparr>\<rparr>"
    by (simp add: update_eval_simps eval_simps boot_eq)
  show ?thesis
    unfolding s0 s1
    by (simp add: eval_simps boot_eq classify_def transform_def invert_X_def invert_Y_def
        invert_Z_def swap_XY_def)
qed

section \<open>The interval-gated call \<^verbatim>\<open>update\<close>\<close>

lemma update_not_elapsed:
  assumes "\<not> (now1 - last_update_time (mpu fw) > interval)"
  shows "update interval now1 raw1 raw2 now2 fw =
    (fw\<lparr>mpu := (mpu fw)\<lparr>action_info :=
        getVirtureMotion6 (order (mpu fw)) raw1 (action_info (mpu fw))\<rparr>\<rparr>, [GetMotion6, Millis])"
  using assms by (simp add: update_def Let_def)

lemma update_last_update_time:
  "last_update_time (mpu (fst (update interval now1 raw1 raw2 now2 fw))) =
    (if now1 - last_update_time (mpu fw) > interval then now2 else last_update_time (mpu fw))"
  by (simp add: update_def Let_def split: prod.split)

text \<open>
  Claim C4, as stated, at the device after start-up: a first \<^verbatim>\<open>update(50)\<close> at time
  100 reads ay = 4500 and latches \<^verbatim>\<open>TURN_LEFT\<close>; a second one at time 120, inside the
  interval, reads ay = 0 and is not without effect on the state: the reading
  \<^verbatim>\<open>v_ay\<close> of \<^verbatim>\<open>action_info\<close> goes from 4500 to 0.
\<close>

theorem update_within_interval_changes_readings:
  "fst (update 50 100 (accel_sample 0 4500) (accel_sample 0 0) 100 boot) = latched_TURN_LEFT
   \<and> \<not> (120 - last_update_time (mpu latched_TURN_LEFT) > (50 :: 32 word))
   \<and> fst (update 50 120 (accel_sample 0 0) (accel_sample 0 0) 120 latched_TURN_LEFT)
       \<noteq> latched_TURN_LEFT
   \<and> v_ay (action_info (mpu latched_TURN_LEFT)) = 4500
   \<and> v_ay (action_info (mpu (fst
        (update 50 120 (accel_sample 0 0) (accel_sample 0 0) 120 latched_TURN_LEFT)))) = 0"
  by (simp add: update_eval_simps eval_simps boot_eq latched_TURN_LEFT_def)

text \<open>
  Claim C4, amended. A call of \<^verbatim>\<open>update\<close> made when \<^verbatim>\<open>millis() - last_update_time\<close> does
  not exceed the interval reads the sensor once and stores the transformed sample in the
  six readings of \<^verbatim>\<open>action_info\<close>, and does nothing else: no classification, kind, valid
  flag and \<^verbatim>\<open>long_time\<close> of the latch as before, \<^verbatim>\<open>last_update_time\<close>, orientation,
  history and index as before, \<^verbatim>\<open>encoder_diff\<close> and \<^verbatim>\<open>encoder_state\<close> as before, no
  delay. For every call, \<^verbatim>\<open>last_update_time\<close> afterwards is the clock value of the call
  if the interval had elapsed and the old value otherwise.
\<close>

theorem update_within_interval:
  assumes closed: "\<not> (now1 - last_update_time (mpu fw) > interval)"
  shows "let fw' = fst (update interval now1 raw1 raw2 now2 fw) in
      snd (update interval now1 raw1 raw2 now2 fw) = [GetMotion6, Millis]
    \<and> readings (action_info (mpu fw')) = transform raw1 (order (mpu fw))
    \<and> active (action_info (mpu fw')) = active (action_info (mpu fw))
    \<and> isValid (action_info (mpu fw')) = isValid (action_info (mpu fw))
    \<and> long_time (action_info (mpu fw')) = long_time (action_info (mpu fw))
    \<and> last_update_time (mpu fw') = last_update_time (mpu fw)
    \<and> order (mpu fw') = order (mpu fw)
    \<and> act_info_history (mpu fw') = act_info_history (mpu fw)
    \<and> act_info_history_ind (mpu fw') = act_info_history_ind (mpu fw)
    \<and> encoder_diff fw' = encoder_diff fw
    \<and> encoder_state fw' = encoder_state fw
    \<and> last_update_time (mpu (fst (update interval' now1' raw1' raw2' now2' fw0))) =
        (if now1' - last_update_time (mpu fw0) > interval' then now2'
         else last_update_time (mpu fw0))"
  unfolding update_not_elapsed [OF closed] Let_def
  by (simp add: getVirtureMotion6_readings getVirtureMotion6_frame update_last_update_time)

theorem update_within_interval_witness:
  "\<not> (120 - last_update_time (mpu latched_TURN_LEFT) > (50 :: 32 word))
   \<and> readings (action_info (mpu (fst
        (update 50 120 (accel_sample 0 0) (accel_sample 0 0) 120 latched_TURN_LEFT))))
       = accel_sample 0 0
   \<and> active (action_info (mpu (fst
        (update 50 120 (accel_sample 0 0) (accel_sample 0 0) 120 latched_TURN_LEFT))))
       = TURN_LEFT
   \<and> last_update_time (mpu (fst
        (update 50 120 (accel_sample 0 0) (accel_sample 0 0) 120 latched_TURN_LEFT))) = 100
   \<and> encoder_diff (fst
        (update 50 120 (accel_sample 0 0) (accel_sample 0 0) 120 latched_TURN_LEFT)) = - 1"
proof -
  have closed: "\<not> (120 - last_update_time (mpu latched_TURN_LEFT) > (50 :: 32 word))"
    by (simp add: latched_TURN_LEFT_def)
  have t: "transform (accel_sample 0 0) (order (mpu latched_TURN_LEFT)) = accel_sample 0 0"
    by (simp add: latched_TURN_LEFT_def transform_def invert_X_def invert_Y_def invert_Z_def
        swap_XY_def)
  have f: "active (action_info (mpu latched_TURN_LEFT)) = TURN_LEFT"
    "last_update_time (mpu latched_TURN_LEFT) = 100"
    "encoder_diff latched_TURN_LEFT = - 1"
    by (simp_all add: latched_TURN_LEFT_def)
  show ?thesis
    using update_within_interval [OF closed, of "accel_sample 0 0" "accel_sample 0 0" 120]
      closed
    by (simp add: Let_def t f)
qed

lemma update_elapsed:
  assumes elapsed: "now1 - last_update_time (mpu fw) > interval"
    and clear: "\<not> isValid (action_info (mpu fw))"
    and fw1: "fw1 = fw\<lparr>mpu := (mpu fw)\<lparr>action_info :=
        getVirtureMotion6 (order (mpu fw)) raw1 (action_info (mpu fw))\<rparr>\<rparr>"
    and fw2: "fw2 = update_rotation fw1"
  shows "update interval now1 raw1 raw2 now2 fw =
    (let p = (if \<not> isValid (action_info (mpu fw2)) then update_linear raw2 fw2
              else (fw2, []))
     in ((fst p)\<lparr>mpu := (mpu (fst p))\<lparr>last_update_time := now2\<rparr>\<rparr>,
         [GetMotion6, Millis] @ snd p @ [Millis]))"
  using elapsed clear unfolding fw2 fw1
  by (simp add: update_def Let_def getVirtureMotion6_frame case_prod_beta)

lemma update_rotation_fields:
  assumes a: "a = action_info (mpu fw1)"
  shows "encoder_state (update_rotation fw1) = encoder_state fw1"
    "order (mpu (update_rotation fw1)) = order (mpu fw1)"
    "last_update_time (mpu (update_rotation fw1)) = last_update_time (mpu fw1)"
    "act_info_history (mpu (update_rotation fw1)) = act_info_history (mpu fw1)"
    "act_info_history_ind (mpu (update_rotation fw1)) = act_info_history_ind (mpu fw1)"
    "readings (action_info (mpu (update_rotation fw1))) = readings a"
    "long_time (action_info (mpu (update_rotation fw1))) = long_time a"
    "encoder_diff (update_rotation fw1) =
      (if sint (v_ay a) > 4000 then encoder_diff fw1 - 1
       else if sint (v_ay a) < - 4000 then encoder_diff fw1 + 1
       else if sint (v_ay a) > 1000 \<or> sint (v_ay a) < - 1000 then encoder_diff fw1 - 1
       else encoder_diff fw1)"
    "isValid (action_info (mpu (update_rotation fw1))) =
      (sint (v_ay a) > 1000 \<or> sint (v_ay a) < - 1000)"
    "active (action_info (mpu (update_rotation fw1))) =
      (if sint (v_ay a) > 4000 then TURN_LEFT
       else if sint (v_ay a) < - 4000 then TURN_RIGHT
       else if sint (v_ay a) > 1000 \<or> sint (v_ay a) < - 1000 then SHAKE
       else active a)"
  unfolding a by (auto simp add: update_rotation_def Let_def readings_def)

lemma readings_frame:
  "readings (a\<lparr>isValid := b\<rparr>) = readings a"
  "readings (a\<lparr>active := c\<rparr>) = readings a"
  "readings (a\<lparr>long_time := b\<rparr>) = readings a"
  by (simp_all add: readings_def)

lemma update_linear_fields:
  assumes a: "a = action_info (mpu fw2)"
    and x2: "x2 = sint (raw_ax (transform raw2 (order (mpu fw2))))"
  shows "encoder_diff (fst (update_linear raw2 fw2)) = encoder_diff fw2"
    "order (mpu (fst (update_linear raw2 fw2))) = order (mpu fw2)"
    "last_update_time (mpu (fst (update_linear raw2 fw2))) = last_update_time (mpu fw2)"
    "act_info_history (mpu (fst (update_linear raw2 fw2))) = act_info_history (mpu fw2)"
    "act_info_history_ind (mpu (fst (update_linear raw2 fw2))) = act_info_history_ind (mpu fw2)"
    "long_time (action_info (mpu (fst (update_linear raw2 fw2)))) = long_time a"
    "readings (action_info (mpu (fst (update_linear raw2 fw2)))) =
      (if sint (v_ax a) > 5000 \<or> sint (v_ax a) < - 5000
       then transform raw2 (order (mpu fw2)) else readings a)"
    "snd (update_linear raw2 fw2) =
      (if sint (v_ax a) > 5000 \<or> sint (v_ax a) < - 5000
       then [Delay 500, GetMotion6] else [])"
    "encoder_state (fst (update_linear raw2 fw2)) =
      (if sint (v_ax a) > 5000 then (if x2 > 5000 then LV_INDEV_STATE_PR else encoder_state fw2)
       else if sint (v_ax a) < - 5000
         then (if x2 < - 5000 then LV_INDEV_STATE_REL else encoder_state fw2)
       else encoder_state fw2)"
    "isValid (action_info (mpu (fst (update_linear raw2 fw2)))) =
      (sint (v_ax a) > 1000 \<or> sint (v_ax a) < - 1000)"
    "active (action_info (mpu (fst (update_linear raw2 fw2)))) =
      (if sint (v_ax a) > 5000 then (if x2 > 5000 then GO_FORWORD else UP)
       else if sint (v_ax a) < - 5000 then (if x2 < - 5000 then RETURN else DOWN)
       else if sint (v_ax a) > 1000 \<or> sint (v_ax a) < - 1000 then SHAKE
       else active a)"
  unfolding a x2
  by (auto simp add: update_linear_def Let_def getVirtureMotion6_v getVirtureMotion6_frame
      getVirtureMotion6_readings readings_frame)



lemma update_elapsed_fields:
  assumes elapsed: "now1 - last_update_time (mpu fw) > interval"
    and clear: "\<not> isValid (action_info (mpu fw))"
    and ay1: "ay1 = sint (raw_ay (transform raw1 (order (mpu fw))))"
    and ax1: "ax1 = sint (raw_ax (transform raw1 (order (mpu fw))))"
    and ax2: "ax2 = sint (raw_ax (transform raw2 (order (mpu fw))))"
    and rot: "rot = (ay1 > 1000 \<or> ay1 < - 1000)"
    and lin: "lin = (\<not> rot \<and> (ax1 > 5000 \<or> ax1 < - 5000))"
    and fw': "fw' = fst (update interval now1 raw1 raw2 now2 fw)"
  shows "encoder_diff fw' =
      (if ay1 > 4000 then encoder_diff fw - 1
       else if ay1 < - 4000 then encoder_diff fw + 1
       else if rot then encoder_diff fw - 1
       else encoder_diff fw)"
    and "encoder_state fw' =
      (if rot then encoder_state fw
       else if ax1 > 5000 then (if ax2 > 5000 then LV_INDEV_STATE_PR else encoder_state fw)
       else if ax1 < - 5000 then (if ax2 < - 5000 then LV_INDEV_STATE_REL else encoder_state fw)
       else encoder_state fw)"
    and "isValid (action_info (mpu fw')) = (rot \<or> ax1 > 1000 \<or> ax1 < - 1000)"
    and "active (action_info (mpu fw')) =
      (if ay1 > 4000 then TURN_LEFT
       else if ay1 < - 4000 then TURN_RIGHT
       else if rot then SHAKE
       else if ax1 > 5000 then (if ax2 > 5000 then GO_FORWORD else UP)
       else if ax1 < - 5000 then (if ax2 < - 5000 then RETURN else DOWN)
       else if ax1 > 1000 \<or> ax1 < - 1000 then SHAKE
       else active (action_info (mpu fw)))"
    and "snd (update interval now1 raw1 raw2 now2 fw) =
      [GetMotion6, Millis] @ (if lin then [Delay 500, GetMotion6] else []) @ [Millis]"
    and "readings (action_info (mpu fw')) =
      (if lin then transform raw2 (order (mpu fw)) else transform raw1 (order (mpu fw)))"
    and "long_time (action_info (mpu fw')) = long_time (action_info (mpu fw))"
    and "last_update_time (mpu fw') = now2"
    and "order (mpu fw') = order (mpu fw)"
    and "act_info_history (mpu fw') = act_info_history (mpu fw)"
    and "act_info_history_ind (mpu fw') = act_info_history_ind (mpu fw)"
proof -
  define fw1 where "fw1 = fw\<lparr>mpu := (mpu fw)\<lparr>action_info :=
        getVirtureMotion6 (order (mpu fw)) raw1 (action_info (mpu fw))\<rparr>\<rparr>"
  define fw2 where "fw2 = update_rotation fw1"
  define a1 where "a1 = action_info (mpu fw1)"
  define a2 where "a2 = action_info (mpu fw2)"
  have f1: "sint (v_ay a1) = ay1" "sint (v_ax a1) = ax1"
    "active a1 = active (action_info (mpu fw))"
    "long_time a1 = long_time (action_info (mpu fw))"
    "readings a1 = transform raw1 (order (mpu fw))"
    "encoder_diff fw1 = encoder_diff fw" "encoder_state fw1 = encoder_state fw"
    "order (mpu fw1) = order (mpu fw)"
    "act_info_history (mpu fw1) = act_info_history (mpu fw)"
    "act_info_history_ind (mpu fw1) = act_info_history_ind (mpu fw)"
    by (simp_all add: a1_def fw1_def ay1 ax1 getVirtureMotion6_v getVirtureMotion6_frame
        getVirtureMotion6_readings)
  note R = update_rotation_fields [OF a1_def, folded fw2_def, unfolded f1]
  have ax: "sint (v_ax a2) = ax1"
  proof -
    have "raw_ax (readings a2) = raw_ax (transform raw1 (order (mpu fw)))"
      unfolding a2_def R by simp
    then show ?thesis by (simp add: readings_def ax1)
  qed
  have x2: "ax2 = sint (raw_ax (transform raw2 (order (mpu fw2))))"
    by (simp add: ax2 R)
  note L = update_linear_fields [OF a2_def x2, unfolded ax]
  have a2: "long_time a2 = long_time (action_info (mpu fw))"
    "readings a2 = transform raw1 (order (mpu fw))"
    "isValid a2 = rot"
    "active a2 = (if ay1 > 4000 then TURN_LEFT else if ay1 < - 4000 then TURN_RIGHT
       else if rot then SHAKE else active (action_info (mpu fw)))"
    by (simp_all add: a2_def R rot)
  note U = update_elapsed [OF elapsed clear fw1_def fw2_def, of raw2 now2]
  show "encoder_diff fw' =
      (if ay1 > 4000 then encoder_diff fw - 1
       else if ay1 < - 4000 then encoder_diff fw + 1
       else if rot then encoder_diff fw - 1
       else encoder_diff fw)"
    unfolding fw' U using a2(3) by (simp add: a2_def [symmetric] L R rot Let_def)
  show "encoder_state fw' =
      (if rot then encoder_state fw
       else if ax1 > 5000 then (if ax2 > 5000 then LV_INDEV_STATE_PR else encoder_state fw)
       else if ax1 < - 5000 then (if ax2 < - 5000 then LV_INDEV_STATE_REL else encoder_state fw)
       else encoder_state fw)"
    unfolding fw' U using a2(3) by (simp add: a2_def [symmetric] L R Let_def)
  show "isValid (action_info (mpu fw')) = (rot \<or> ax1 > 1000 \<or> ax1 < - 1000)"
    unfolding fw' U using a2(3) by (auto simp add: a2_def [symmetric] L Let_def)
  show "active (action_info (mpu fw')) =
      (if ay1 > 4000 then TURN_LEFT
       else if ay1 < - 4000 then TURN_RIGHT
       else if rot then SHAKE
       else if ax1 > 5000 then (if ax2 > 5000 then GO_FORWORD else UP)
       else if ax1 < - 5000 then (if ax2 < - 5000 then RETURN else DOWN)
       else if ax1 > 1000 \<or> ax1 < - 1000 then SHAKE
       else active (action_info (mpu fw)))"
    unfolding fw' U using a2(3,4) by (auto simp add: a2_def [symmetric] L rot Let_def)
  show "snd (update interval now1 raw1 raw2 now2 fw) =
      [GetMotion6, Millis] @ (if lin then [Delay 500, GetMotion6] else []) @ [Millis]"
    unfolding U using a2(3) by (auto simp add: a2_def [symmetric] L lin Let_def)
  show "readings (action_info (mpu fw')) =
      (if lin then transform raw2 (order (mpu fw)) else transform raw1 (order (mpu fw)))"
    unfolding fw' U using a2(2,3)
    by (auto simp add: a2_def [symmetric] L R lin readings_frame Let_def)
  show "long_time (action_info (mpu fw')) = long_time (action_info (mpu fw))"
    unfolding fw' U using a2(1) by (simp add: a2_def [symmetric] L Let_def)
  show "last_update_time (mpu fw') = now2"
    unfolding fw' U by (simp add: Let_def)
  show "order (mpu fw') = order (mpu fw)"
    unfolding fw' U by (simp add: L R Let_def)
  show "act_info_history (mpu fw') = act_info_history (mpu fw)"
    unfolding fw' U by (simp add: L R Let_def)
  show "act_info_history_ind (mpu fw') = act_info_history_ind (mpu fw)"
    unfolding fw' U by (simp add: L R Let_def)
qed

text \<open>
  Claim C8. In \<^verbatim>\<open>update\<close>, when the interval has elapsed, the latch is clear and no test
  of the rotation block matches: if the virtual sample has ax above 5000 the latch
  becomes valid, the call waits once (\<^verbatim>\<open>delay(500)\<close>) and reads the sensor once more, and
  the kind is \<^verbatim>\<open>GO_FORWORD\<close> with \<^verbatim>\<open>encoder_state\<close> set to pressed if the second sample
  has ax above 5000 too, and \<^verbatim>\<open>UP\<close> with \<^verbatim>\<open>encoder_state\<close> as before if not. For ax
  below -5000 likewise with \<^verbatim>\<open>RETURN\<close>, released and \<^verbatim>\<open>DOWN\<close>. Otherwise there is no
  wait and no second read. \<^verbatim>\<open>encoder_diff\<close> is unchanged throughout.
\<close>

theorem update_confirms_linear:
  assumes elapsed: "now1 - last_update_time (mpu fw) > interval"
    and clear: "\<not> isValid (action_info (mpu fw))"
    and no_rot: "\<not> (sint (raw_ay (transform raw1 (order (mpu fw)))) > 1000
                   \<or> sint (raw_ay (transform raw1 (order (mpu fw)))) < - 1000)"
  shows "let ax1 = sint (raw_ax (transform raw1 (order (mpu fw))));
             ax2 = sint (raw_ax (transform raw2 (order (mpu fw))));
             fw' = fst (update interval now1 raw1 raw2 now2 fw);
             tr = snd (update interval now1 raw1 raw2 now2 fw);
             a' = action_info (mpu fw')
         in if ax1 > 5000 then
              isValid a'
              \<and> active a' = (if ax2 > 5000 then GO_FORWORD else UP)
              \<and> encoder_state fw' = (if ax2 > 5000 then LV_INDEV_STATE_PR else encoder_state fw)
              \<and> encoder_diff fw' = encoder_diff fw
              \<and> readings a' = transform raw2 (order (mpu fw))
              \<and> tr = [GetMotion6, Millis, Delay 500, GetMotion6, Millis]
            else if ax1 < - 5000 then
              isValid a'
              \<and> active a' = (if ax2 < - 5000 then RETURN else DOWN)
              \<and> encoder_state fw' = (if ax2 < - 5000 then LV_INDEV_STATE_REL else encoder_state fw)
              \<and> encoder_diff fw' = encoder_diff fw
              \<and> readings a' = transform raw2 (order (mpu fw))
              \<and> tr = [GetMotion6, Millis, Delay 500, GetMotion6, Millis]
            else
              encoder_state fw' = encoder_state fw
              \<and> encoder_diff fw' = encoder_diff fw
              \<and> readings a' = transform raw1 (order (mpu fw))
              \<and> tr = [GetMotion6, Millis, Millis]"
proof -
  define ay1 where "ay1 = sint (raw_ay (transform raw1 (order (mpu fw))))"
  define ax1 where "ax1 = sint (raw_ax (transform raw1 (order (mpu fw))))"
  define ax2 where "ax2 = sint (raw_ax (transform raw2 (order (mpu fw))))"
  define rot where "rot = (ay1 > 1000 \<or> ay1 < - 1000)"
  define lin where "lin = (\<not> rot \<and> (ax1 > 5000 \<or> ax1 < - 5000))"
  define fw' where "fw' = fst (update interval now1 raw1 raw2 now2 fw)"
  note F = update_elapsed_fields [OF elapsed clear ay1_def ax1_def ax2_def rot_def lin_def fw'_def]
  from no_rot have r: "\<not> rot" "\<not> ay1 > 4000" "\<not> ay1 < - 4000"
    by (simp_all add: rot_def ay1_def)
  show ?thesis
    unfolding Let_def
    unfolding fw'_def [symmetric] ax1_def [symmetric] ax2_def [symmetric]
    using r by (simp add: F lin_def)
qed

theorem update_confirms_linear_witness:
  "100 - last_update_time (mpu boot) > (50 :: 32 word)
   \<and> \<not> isValid (action_info (mpu boot))
   \<and> \<not> (sint (raw_ay (transform (accel_sample 5500 0) (order (mpu boot)))) > 1000
        \<or> sint (raw_ay (transform (accel_sample 5500 0) (order (mpu boot)))) < - 1000)
   \<and> active (action_info (mpu (fst
        (update 50 100 (accel_sample 5500 0) (accel_sample 5500 0) 100 boot)))) = GO_FORWORD
   \<and> encoder_state (fst
        (update 50 100 (accel_sample 5500 0) (accel_sample 5500 0) 100 boot)) = LV_INDEV_STATE_PR
   \<and> active (action_info (mpu (fst
        (update 50 100 (accel_sample 5500 0) (accel_sample 4000 0) 100 boot)))) = UP
   \<and> encoder_state (fst
        (update 50 100 (accel_sample 5500 0) (accel_sample 4000 0) 100 boot)) = LV_INDEV_STATE_REL
   \<and> active (action_info (mpu (fst
        (update 50 100 (accel_sample (- 5500) 0) (accel_sample (- 5500) 0) 100 boot)))) = RETURN
   \<and> snd (update 50 100 (accel_sample (- 5500) 0) (accel_sample (- 5500) 0) 100 boot)
       = [GetMotion6, Millis, Delay 500, GetMotion6, Millis]"
proof -
  have t: "transform (accel_sample x y) (order (mpu boot)) = accel_sample x y" for x y
    by (simp add: boot_eq transform_def invert_X_def invert_Y_def invert_Z_def swap_XY_def)
  have elapsed: "100 - last_update_time (mpu boot) > (50 :: 32 word)"
    by (simp add: boot_eq)
  have clear: "\<not> isValid (action_info (mpu boot))"
    by (simp add: boot_eq)
  have no_rot: "\<not> (sint (raw_ay (transform (accel_sample x 0) (order (mpu boot)))) > 1000
        \<or> sint (raw_ay (transform (accel_sample x 0) (order (mpu boot)))) < - 1000)" for x
    unfolding t by (simp add: accel_sample_def)
  have e: "encoder_state boot = LV_INDEV_STATE_REL" by (simp add: boot_eq)
  show ?thesis
    using update_confirms_linear [OF elapsed clear no_rot, of 5500 "accel_sample 5500 0" 100]
      update_confirms_linear [OF elapsed clear no_rot, of 5500 "accel_sample 4000 0" 100]
      update_confirms_linear [OF elapsed clear no_rot, of "- 5500" "accel_sample (- 5500) 0" 100]
      elapsed clear no_rot [of 5500]
    unfolding t Let_def by (simp add: e accel_sample_def)
qed

text \<open>
  Claim C9. In \<^verbatim>\<open>update\<close>, when the interval has elapsed and the latch is clear, by the
  case of the cascade that the samples fall in: \<^verbatim>\<open>TURN_LEFT\<close> takes 1 from
  \<^verbatim>\<open>encoder_diff\<close>, \<^verbatim>\<open>TURN_RIGHT\<close> adds 1, \<^verbatim>\<open>SHAKE\<close> of the rotation block takes 1
  (all three modulo \<open>2 ^ 32\<close>), each with \<^verbatim>\<open>encoder_state\<close> as before; \<^verbatim>\<open>GO_FORWORD\<close>
  sets \<^verbatim>\<open>encoder_state\<close> to pressed and \<^verbatim>\<open>RETURN\<close> to released, with \<^verbatim>\<open>encoder_diff\<close>
  as before; \<^verbatim>\<open>UP\<close>, \<^verbatim>\<open>DOWN\<close>, \<^verbatim>\<open>SHAKE\<close> of the linear block and no gesture leave both
  as they were.
\<close>

theorem update_encoder_bridge:
  assumes elapsed: "now1 - last_update_time (mpu fw) > interval"
    and clear: "\<not> isValid (action_info (mpu fw))"
  shows "let ay1 = sint (raw_ay (transform raw1 (order (mpu fw))));
             ax1 = sint (raw_ax (transform raw1 (order (mpu fw))));
             ax2 = sint (raw_ax (transform raw2 (order (mpu fw))));
             fw' = fst (update interval now1 raw1 raw2 now2 fw);
             a' = action_info (mpu fw')
         in if ay1 > 4000 then
              isValid a' \<and> active a' = TURN_LEFT
              \<and> encoder_diff fw' = encoder_diff fw - 1 \<and> encoder_state fw' = encoder_state fw
            else if ay1 < - 4000 then
              isValid a' \<and> active a' = TURN_RIGHT
              \<and> encoder_diff fw' = encoder_diff fw + 1 \<and> encoder_state fw' = encoder_state fw
            else if ay1 > 1000 \<or> ay1 < - 1000 then
              isValid a' \<and> active a' = SHAKE
              \<and> encoder_diff fw' = encoder_diff fw - 1 \<and> encoder_state fw' = encoder_state fw
            else if ax1 > 5000 \<and> ax2 > 5000 then
              isValid a' \<and> active a' = GO_FORWORD
              \<and> encoder_diff fw' = encoder_diff fw \<and> encoder_state fw' = LV_INDEV_STATE_PR
            else if ax1 > 5000 then
              isValid a' \<and> active a' = UP
              \<and> encoder_diff fw' = encoder_diff fw \<and> encoder_state fw' = encoder_state fw
            else if ax1 < - 5000 \<and> ax2 < - 5000 then
              isValid a' \<and> active a' = RETURN
              \<and> encoder_diff fw' = encoder_diff fw \<and> encoder_state fw' = LV_INDEV_STATE_REL
            else if ax1 < - 5000 then
              isValid a' \<and> active a' = DOWN
              \<and> encoder_diff fw' = encoder_diff fw \<and> encoder_state fw' = encoder_state fw
            else if ax1 > 1000 \<or> ax1 < - 1000 then
              isValid a' \<and> active a' = SHAKE
              \<and> encoder_diff fw' = encoder_diff fw \<and> encoder_state fw' = encoder_state fw
            else
              \<not> isValid a' \<and> active a' = active (action_info (mpu fw))
              \<and> encoder_diff fw' = encoder_diff fw \<and> encoder_state fw' = encoder_state fw"
proof -
  define ay1 where "ay1 = sint (raw_ay (transform raw1 (order (mpu fw))))"
  define ax1 where "ax1 = sint (raw_ax (transform raw1 (order (mpu fw))))"
  define ax2 where "ax2 = sint (raw_ax (transform raw2 (order (mpu fw))))"
  define rot where "rot = (ay1 > 1000 \<or> ay1 < - 1000)"
  define lin where "lin = (\<not> rot \<and> (ax1 > 5000 \<or> ax1 < - 5000))"
  define fw' where "fw' = fst (update interval now1 raw1 raw2 now2 fw)"
  note F = update_elapsed_fields [OF elapsed clear ay1_def ax1_def ax2_def rot_def lin_def fw'_def]
  show ?thesis
    unfolding Let_def
    unfolding fw'_def [symmetric] ay1_def [symmetric] ax1_def [symmetric] ax2_def [symmetric]
    by (simp add: F(1-4) rot_def)
qed


theorem update_encoder_bridge_witness:
  "100 - last_update_time (mpu boot) > (50 :: 32 word)
   \<and> \<not> isValid (action_info (mpu boot))
   \<and> active (action_info (mpu (fst
        (update 50 100 (accel_sample 0 4500) (accel_sample 0 0) 100 boot)))) = TURN_LEFT
   \<and> encoder_diff (fst (update 50 100 (accel_sample 0 4500) (accel_sample 0 0) 100 boot)) = - 1
   \<and> active (action_info (mpu (fst
        (update 50 100 (accel_sample 0 (- 4500)) (accel_sample 0 0) 100 boot)))) = TURN_RIGHT
   \<and> encoder_diff (fst (update 50 100 (accel_sample 0 (- 4500)) (accel_sample 0 0) 100 boot)) = 1
   \<and> active (action_info (mpu (fst
        (update 50 100 (accel_sample 0 2000) (accel_sample 0 0) 100 boot)))) = SHAKE
   \<and> encoder_diff (fst (update 50 100 (accel_sample 0 2000) (accel_sample 0 0) 100 boot)) = - 1
   \<and> active (action_info (mpu (fst
        (update 50 100 (accel_sample 2000 0) (accel_sample 0 0) 100 boot)))) = SHAKE
   \<and> encoder_diff (fst (update 50 100 (accel_sample 2000 0) (accel_sample 0 0) 100 boot)) = 0
   \<and> encoder_state (fst (update 50 100 (accel_sample 5500 0) (accel_sample 5500 0) 100 boot))
       = LV_INDEV_STATE_PR
   \<and> \<not> isValid (action_info (mpu (fst
        (update 50 100 (accel_sample 0 0) (accel_sample 0 0) 100 boot))))"
proof -
  have t: "transform (accel_sample x y) (order (mpu boot)) = accel_sample x y" for x y
    by (simp add: boot_eq transform_def invert_X_def invert_Y_def invert_Z_def swap_XY_def)
  have elapsed: "100 - last_update_time (mpu boot) > (50 :: 32 word)"
    by (simp add: boot_eq)
  have clear: "\<not> isValid (action_info (mpu boot))"
    by (simp add: boot_eq)
  have e: "encoder_state boot = LV_INDEV_STATE_REL" "encoder_diff boot = 0"
    by (simp_all add: boot_eq)
  show ?thesis
    using update_encoder_bridge [OF elapsed clear, of "accel_sample 0 4500" "accel_sample 0 0" 100]
      update_encoder_bridge [OF elapsed clear, of "accel_sample 0 (- 4500)" "accel_sample 0 0" 100]
      update_encoder_bridge [OF elapsed clear, of "accel_sample 0 2000" "accel_sample 0 0" 100]
      update_encoder_bridge [OF elapsed clear, of "accel_sample 2000 0" "accel_sample 0 0" 100]
      update_encoder_bridge [OF elapsed clear, of "accel_sample 5500 0" "accel_sample 5500 0" 100]
      update_encoder_bridge [OF elapsed clear, of "accel_sample 0 0" "accel_sample 0 0" 100]
      elapsed clear
    unfolding t Let_def by (simp add: e accel_sample_def)
qed

end
